theory Spec2Isabelle
  imports Complex_Main
begin

section \<open>JavaScript strings\<close>

text \<open>
  A JavaScript string is a sequence of UTF-16 code units.  Code units are modelled as
  natural numbers, so every string the handlers can receive is a value of the model.
  \<open>str\<close> turns a literal of the source into its code units.
\<close>

type_synonym code_unit = nat
type_synonym js_string = "code_unit list"

definition str :: "string \<Rightarrow> js_string" where
  "str s = map of_char s"

text \<open>\<open>s.startsWith(p)\<close> and \<open>s.includes(p)\<close> (here \<open>contains\<close>).\<close>

definition startsWith :: "js_string \<Rightarrow> js_string \<Rightarrow> bool" where
  "startsWith s p \<longleftrightarrow> take (length p) s = p"

fun contains :: "js_string \<Rightarrow> js_string \<Rightarrow> bool" where
  "contains [] p = (p = [])"
| "contains (c # cs) p = (startsWith (c # cs) p \<or> contains cs p)"

text \<open>
  \<open>s.replace(/p/g, r)\<close> for a pattern \<open>p\<close> that is a plain, non-empty sequence of
  characters and a replacement without \<open>$\<close> patterns: the text is scanned from the left,
  every match is replaced and the scan goes on behind the match.
\<close>

function replace_all :: "js_string \<Rightarrow> js_string \<Rightarrow> js_string \<Rightarrow> js_string" where
  "replace_all p r [] = []"
| "replace_all p r (c # cs) =
     (if p \<noteq> [] \<and> startsWith (c # cs) p
      then r @ replace_all p r (drop (length p) (c # cs))
      else c # replace_all p r cs)"
  by pat_completeness auto
termination
  by (relation "measure (\<lambda>(p, r, s). length s)") (auto simp: neq_Nil_conv)

text \<open>
  What the specification calls removing every occurrence of \<open>p\<close>, written without the
  scan: \<open>occurrences_removed p s r\<close> holds when \<open>r\<close> is \<open>s\<close> without its occurrences
  of \<open>p\<close>, where an occurrence is the first one of the text that is left (no occurrence
  begins before it) and the text behind it is treated the same way.
\<close>

inductive occurrences_removed :: "js_string \<Rightarrow> js_string \<Rightarrow> js_string \<Rightarrow> bool" where
  none: "\<not> contains s p \<Longrightarrow> occurrences_removed p s s"
| first: "\<not> contains (a @ butlast p) p \<Longrightarrow> occurrences_removed p b r \<Longrightarrow>
          occurrences_removed p (a @ p @ b) (a @ r)"

text \<open>
  \<open>s.trim()\<close> removes the leading and trailing white space and line terminators of
  ECMAScript: TAB, LF, VT, FF, CR, SP, NBSP, the space separators of Unicode, LS, PS and
  the byte order mark.
\<close>

definition js_whitespace :: "code_unit \<Rightarrow> bool" where
  "js_whitespace c \<longleftrightarrow>
     c = 9 \<or> c = 10 \<or> c = 11 \<or> c = 12 \<or> c = 13 \<or> c = 32 \<or> c = 160 \<or> c = 5760 \<or>
     (8192 \<le> c \<and> c \<le> 8202) \<or> c = 8232 \<or> c = 8233 \<or> c = 8239 \<or> c = 8287 \<or>
     c = 12288 \<or> c = 65279"

definition trim :: "js_string \<Rightarrow> js_string" where
  "trim s = rev (dropWhile js_whitespace (rev (dropWhile js_whitespace s)))"

text \<open>
  \<open>s.split(sep)\<close> for a separator of one code unit: the pieces between the separators,
  at least one piece.  \<open>index xs i\<close> is \<open>xs[i]\<close>, where a missing element is
  \<open>undefined\<close>.
\<close>

fun split :: "js_string \<Rightarrow> code_unit \<Rightarrow> js_string list" where
  "split [] sep = [[]]"
| "split (c # cs) sep =
     (if c = sep then [] # split cs sep
      else (case split cs sep of
              [] \<Rightarrow> [[c]]
            | piece # pieces \<Rightarrow> (c # piece) # pieces))"

definition index :: "'a list \<Rightarrow> nat \<Rightarrow> 'a option" where
  "index xs i = (if i < length xs then Some (xs ! i) else None)"

section \<open>JSON values and \<open>JSON.parse\<close>\<close>

text \<open>
  The values of JSON.  A number is its exact decimal value (the rounding to a binary64 is
  left out).  An object is the list of its members in the order of the text, where a key
  that comes again overwrites the earlier value in place, as a property assignment does.
\<close>

datatype json =
    JNull
  | JBool bool
  | JNumber rat
  | JString js_string
  | JArray "json list"
  | JObject "(js_string \<times> json) list"

fun set_member :: "js_string \<Rightarrow> json \<Rightarrow> (js_string \<times> json) list \<Rightarrow> (js_string \<times> json) list" where
  "set_member k v [] = [(k, v)]"
| "set_member k v ((k', v') # ms) =
     (if k = k' then (k, v) # ms else (k', v') # set_member k v ms)"

text \<open>\<open>o[k]\<close> on an object of JSON: the member, or \<open>undefined\<close>.\<close>

definition member :: "(js_string \<times> json) list \<Rightarrow> js_string \<Rightarrow> json option" where
  "member ms k = map_of ms k"

subsection \<open>Tokens\<close>

datatype token = TLBrack | TRBrack | TLBrace | TRBrace | TColon | TComma | TScalar json

definition json_ws :: "code_unit \<Rightarrow> bool" where
  "json_ws c \<longleftrightarrow> c = 32 \<or> c = 9 \<or> c = 10 \<or> c = 13"

definition is_digit :: "code_unit \<Rightarrow> bool" where
  "is_digit c \<longleftrightarrow> 48 \<le> c \<and> c \<le> 57"

definition is_letter :: "code_unit \<Rightarrow> bool" where
  "is_letter c \<longleftrightarrow> 97 \<le> c \<and> c \<le> 122"

definition number_char :: "code_unit \<Rightarrow> bool" where
  "number_char c \<longleftrightarrow> is_digit c \<or> c = 43 \<or> c = 45 \<or> c = 46 \<or> c = 69 \<or> c = 101"

definition hex_val :: "code_unit \<Rightarrow> nat option" where
  "hex_val c =
     (if 48 \<le> c \<and> c \<le> 57 then Some (c - 48)
      else if 65 \<le> c \<and> c \<le> 70 then Some (c - 55)
      else if 97 \<le> c \<and> c \<le> 102 then Some (c - 87)
      else None)"

definition hex4 :: "js_string \<Rightarrow> code_unit option" where
  "hex4 hs =
     (if length hs = 4 \<and> list_all (\<lambda>h. hex_val h \<noteq> None) hs
      then Some (foldl (\<lambda>a h. 16 * a + the (hex_val h)) 0 hs)
      else None)"

text \<open>The character after a backslash: \<open>" \\ / b f n r t\<close>.\<close>

definition escape :: "code_unit \<Rightarrow> code_unit option" where
  "escape e =
     (if e = 34 \<or> e = 92 \<or> e = 47 then Some e
      else if e = 98 then Some 8
      else if e = 102 then Some 12
      else if e = 110 then Some 10
      else if e = 114 then Some 13
      else if e = 116 then Some 9
      else None)"

text \<open>
  The characters of a string behind its opening quote: the string's value and the text
  behind the closing quote.  A control character, an unknown escape and a missing closing
  quote are syntax errors.
\<close>

function lex_string :: "js_string \<Rightarrow> js_string \<Rightarrow> (js_string \<times> js_string) option" where
  "lex_string acc [] = None"
| "lex_string acc (c # cs) =
     (if c = 34 then Some (rev acc, cs)
      else if c < 32 then None
      else if c = 92 then
        (case cs of
           [] \<Rightarrow> None
         | e # es \<Rightarrow>
             if e = 117 then
               (case hex4 (take 4 es) of
                  None \<Rightarrow> None
                | Some u \<Rightarrow> lex_string (u # acc) (drop 4 es))
             else
               (case escape e of
                  None \<Rightarrow> None
                | Some u \<Rightarrow> lex_string (u # acc) es))
      else lex_string (c # acc) cs)"
  by pat_completeness auto
termination
  by (relation "measure (\<lambda>(acc, s). length s)") auto

definition digits_value :: "js_string \<Rightarrow> nat" where
  "digits_value ds = foldl (\<lambda>a d. 10 * a + (d - 48)) 0 ds"

text \<open>
  The value of a number of JSON: an optional minus, an integer part without a leading
  zero, an optional fraction and an optional exponent.
\<close>

definition number_of :: "js_string \<Rightarrow> rat option" where
  "number_of lexeme =
     (let neg = (lexeme \<noteq> [] \<and> hd lexeme = 45);
          r0 = (if neg then tl lexeme else lexeme);
          ip = takeWhile is_digit r0;
          r1 = dropWhile is_digit r0;
          has_frac = (r1 \<noteq> [] \<and> hd r1 = 46);
          fp = (if has_frac then takeWhile is_digit (tl r1) else []);
          r2 = (if has_frac then dropWhile is_digit (tl r1) else r1);
          has_exp = (r2 \<noteq> [] \<and> (hd r2 = 69 \<or> hd r2 = 101));
          r3 = (if has_exp then tl r2 else r2);
          exp_neg = (has_exp \<and> r3 \<noteq> [] \<and> hd r3 = 45);
          r4 = (if has_exp \<and> r3 \<noteq> [] \<and> (hd r3 = 43 \<or> hd r3 = 45) then tl r3 else r3);
          ep = (if has_exp then takeWhile is_digit r4 else []);
          r5 = (if has_exp then dropWhile is_digit r4 else r4);
          mantissa = of_nat (digits_value (ip @ fp)) / 10 ^ length fp;
          scaled = (if exp_neg then mantissa / 10 ^ digits_value ep
                    else mantissa * 10 ^ digits_value ep)
      in if ip = [] \<or> (1 < length ip \<and> hd ip = 48) \<or> (has_frac \<and> fp = []) \<or>
            (has_exp \<and> ep = []) \<or> r5 \<noteq> []
         then None
         else Some (if neg then - scaled else scaled))"

definition literal_of :: "js_string \<Rightarrow> json option" where
  "literal_of w =
     (if w = str ''true'' then Some (JBool True)
      else if w = str ''false'' then Some (JBool False)
      else if w = str ''null'' then Some JNull
      else None)"

lemma lex_string_rest: "lex_string acc s = Some (v, rest) \<Longrightarrow> length rest < length s"
proof (induction acc s rule: lex_string.induct)
  case (1 acc)
  then show ?case by simp
next
  case (2 acc c cs)
  show ?case
  proof (cases "c = 34 \<or> c < 32")
    case True
    with 2 show ?thesis by (auto split: if_splits)
  next
    case plain: False
    show ?thesis
    proof (cases "c = 92")
      case False
      with plain 2 show ?thesis by (auto split: if_splits)
    next
      case True
      with plain 2 obtain e es where cs: "cs = e # es"
        by (cases cs) auto
      show ?thesis
      proof (cases "e = 117")
        case True
        with plain \<open>c = 92\<close> cs 2 obtain u where u: "hex4 (take 4 es) = Some u"
          and r: "lex_string (u # acc) (drop 4 es) = Some (v, rest)"
          by (auto split: option.splits)
        from 2(1) plain \<open>c = 92\<close> cs True u r
        have "length rest < length (drop 4 es)" by simp
        with cs show ?thesis by simp
      next
        case False
        with plain \<open>c = 92\<close> cs 2 obtain u where u: "escape e = Some u"
          and r: "lex_string (u # acc) es = Some (v, rest)"
          by (auto split: option.splits)
        from 2(2) plain \<open>c = 92\<close> cs False u r
        have "length rest < length es" by simp
        with cs show ?thesis by simp
      qed
    qed
  qed
qed

text \<open>
  The tokens of a text.  A number and a literal are read as the longest run of their
  characters, which the grammar of JSON requires to be followed by white space, a
  bracket, a brace, a comma or a colon.
\<close>

function lex :: "js_string \<Rightarrow> token list option" where
  "lex [] = Some []"
| "lex (c # cs) =
     (if json_ws c then lex cs
      else if c = 91 then map_option (Cons TLBrack) (lex cs)
      else if c = 93 then map_option (Cons TRBrack) (lex cs)
      else if c = 123 then map_option (Cons TLBrace) (lex cs)
      else if c = 125 then map_option (Cons TRBrace) (lex cs)
      else if c = 58 then map_option (Cons TColon) (lex cs)
      else if c = 44 then map_option (Cons TComma) (lex cs)
      else if c = 34 then
        (case lex_string [] cs of
           None \<Rightarrow> None
         | Some (s, rest) \<Rightarrow> map_option (Cons (TScalar (JString s))) (lex rest))
      else if c = 45 \<or> is_digit c then
        (case number_of (c # takeWhile number_char cs) of
           None \<Rightarrow> None
         | Some q \<Rightarrow> map_option (Cons (TScalar (JNumber q))) (lex (dropWhile number_char cs)))
      else if is_letter c then
        (case literal_of (c # takeWhile is_letter cs) of
           None \<Rightarrow> None
         | Some v \<Rightarrow> map_option (Cons (TScalar v)) (lex (dropWhile is_letter cs)))
      else None)"
  by pat_completeness auto
termination
  by (relation "measure length")
     (auto dest: lex_string_rest intro: less_SucI le_imp_less_Suc length_dropWhile_le)

subsection \<open>The grammar, as a pushdown automaton over the tokens\<close>

text \<open>
  The stack holds the arrays and objects that are open: an array with its elements so far,
  an object with its members so far, and an object whose next member has its key read.
\<close>

datatype frame =
    FArray "json list"
  | FObject "(js_string \<times> json) list"
  | FMember "(js_string \<times> json) list" js_string

datatype mode =
    WantValue
  | WantValueOrClose
  | WantKey
  | WantKeyOrClose
  | WantColon
  | AfterItem
  | Done json

text \<open>A value is complete: it is the whole text, an element or the value of a member.\<close>

fun place :: "json \<Rightarrow> frame list \<Rightarrow> (mode \<times> frame list) option" where
  "place v [] = Some (Done v, [])"
| "place v (FArray els # st) = Some (AfterItem, FArray (els @ [v]) # st)"
| "place v (FMember ms k # st) = Some (AfterItem, FObject (set_member k v ms) # st)"
| "place v (FObject ms # st) = None"

definition begin_value :: "token \<Rightarrow> frame list \<Rightarrow> (mode \<times> frame list) option" where
  "begin_value t st =
     (case t of
        TScalar v \<Rightarrow> place v st
      | TLBrack \<Rightarrow> Some (WantValueOrClose, FArray [] # st)
      | TLBrace \<Rightarrow> Some (WantKeyOrClose, FObject [] # st)
      | _ \<Rightarrow> None)"

definition begin_member :: "token \<Rightarrow> frame list \<Rightarrow> (mode \<times> frame list) option" where
  "begin_member t st =
     (case (t, st) of
        (TScalar (JString k), FObject ms # st') \<Rightarrow> Some (WantColon, FMember ms k # st')
      | _ \<Rightarrow> None)"

definition close_array :: "frame list \<Rightarrow> (mode \<times> frame list) option" where
  "close_array st = (case st of FArray els # st' \<Rightarrow> place (JArray els) st' | _ \<Rightarrow> None)"

definition close_object :: "frame list \<Rightarrow> (mode \<times> frame list) option" where
  "close_object st = (case st of FObject ms # st' \<Rightarrow> place (JObject ms) st' | _ \<Rightarrow> None)"

definition next_item :: "frame list \<Rightarrow> (mode \<times> frame list) option" where
  "next_item st =
     (case st of
        FArray els # st' \<Rightarrow> Some (WantValue, st)
      | FObject ms # st' \<Rightarrow> Some (WantKey, st)
      | _ \<Rightarrow> None)"

definition step :: "mode \<times> frame list \<Rightarrow> token \<Rightarrow> (mode \<times> frame list) option" where
  "step s t =
     (case s of (m, st) \<Rightarrow>
        (case m of
           WantValue \<Rightarrow> begin_value t st
         | WantValueOrClose \<Rightarrow> (if t = TRBrack then close_array st else begin_value t st)
         | WantKey \<Rightarrow> begin_member t st
         | WantKeyOrClose \<Rightarrow> (if t = TRBrace then close_object st else begin_member t st)
         | WantColon \<Rightarrow> (if t = TColon then Some (WantValue, st) else None)
         | AfterItem \<Rightarrow>
             (if t = TComma then next_item st
              else if t = TRBrack then close_array st
              else if t = TRBrace then close_object st
              else None)
         | Done v \<Rightarrow> None))"

fun run :: "mode \<times> frame list \<Rightarrow> token list \<Rightarrow> (mode \<times> frame list) option" where
  "run s [] = Some s"
| "run s (t # ts) = (case step s t of None \<Rightarrow> None | Some s' \<Rightarrow> run s' ts)"

text \<open>\<open>JSON.parse(text)\<close>: the value, or \<open>None\<close> where it throws a \<open>SyntaxError\<close>.\<close>

definition JSON_parse :: "js_string \<Rightarrow> json option" where
  "JSON_parse text =
     (case lex text of
        None \<Rightarrow> None
      | Some ts \<Rightarrow>
          (case run (WantValue, []) ts of
             Some (Done v, st) \<Rightarrow> Some v
           | _ \<Rightarrow> None))"

section \<open>The grading endpoint (\<open>route.ts\<close>)\<close>

text \<open>
  A value that is thrown and caught: the handler reads its \<open>message\<close> only, which may be
  missing.
\<close>

datatype js_error = Error (message: "js_string option")

text \<open>\<open>a || b\<close> on a string that may be \<open>undefined\<close>: the empty string is falsy as well.\<close>

definition or_else :: "js_string option \<Rightarrow> js_string \<Rightarrow> js_string" where
  "or_else a b = (case a of None \<Rightarrow> b | Some s \<Rightarrow> if s = [] then b else s)"

text \<open>The output schema, in the types of the inference library.\<close>

datatype schema_type = ARRAY | OBJECT | INTEGER | STRING | BOOLEAN

datatype schema =
  Schema (schema_type: schema_type) (description: "js_string option") (items: "schema option")
    (properties: "(js_string \<times> schema) list") (required: "js_string list")

datatype part = InlineData js_string "js_string option" | Text js_string

record generate_config =
  systemInstruction :: js_string
  responseMimeType :: js_string
  responseSchema :: schema
  temperature :: rat

record request =
  model :: js_string
  parts :: "part list"
  config :: generate_config

definition system_instruction :: js_string where
  \<open>system_instruction =
     str ''\<newline>      You are an expert Math Teacher AI. Your task is to grade a handwritten math worksheet.\<newline>'' @
     str ''      \<newline>'' @
     str ''      1.  **Analyze**: Scan the image from top to bottom. Identify every distinct math expression or step.\<newline>'' @
     str ''      2.  **Evaluate**: For each line/step, determine if the math is logically correct based on the previous lines or standard math rules.\<newline>'' @
     str ''      3.  **Localize**: Return the 2D bounding box for each distinct line in the [ymin, xmin, ymax, xmax] format (0-1000 scale).\<newline>'' @
     str ''      4.  **Explain**: If a line is incorrect, provide a brief, friendly explanation of the error. If correct, keep explanation empty or "Correct".\<newline>'' @
     str ''      5.  **Transcription**: Transcribe the math into LaTeX format.\<newline>'' @
     str ''\<newline>'' @
     str ''      **CRITICAL OUTPUT RULES:**\<newline>'' @
     str ''      - Return ONLY a valid JSON Array.\<newline>'' @
     str ''      - Do not include Markdown formatting (no ```json).\<newline>'' @
     str ''      - Do not include any intro/outro text.\<newline>'' @
     str ''    ''\<close>

definition grading_fields :: "js_string list" where
  "grading_fields =
     [str ''lineNumber'', str ''latex'', str ''isCorrect'', str ''explanation'', str ''boundingBox'']"

definition gradingSchema :: schema where
  "gradingSchema =
     Schema ARRAY None
       (Some (Schema OBJECT None None
          [(str ''lineNumber'',
              Schema INTEGER (Some (str ''The sequential line number starting from 1'')) None [] []),
           (str ''latex'',
              Schema STRING (Some (str ''The math expression in LaTeX format'')) None [] []),
           (str ''isCorrect'',
              Schema BOOLEAN (Some (str ''True if the step is mathematically valid'')) None [] []),
           (str ''explanation'',
              Schema STRING (Some (str ''Feedback on the step'')) None [] []),
           (str ''boundingBox'',
              Schema ARRAY (Some (str ''Coordinates [ymin, xmin, ymax, xmax] on a 1000x1000 scale''))
                (Some (Schema INTEGER None None [] [])) [] [])]
          [str ''lineNumber'', str ''latex'', str ''isCorrect'', str ''explanation'',
           str ''boundingBox'']))
       [] []"

text \<open>The argument of \<open>ai.models.generateContent\<close> for the payload \<open>base64Data\<close>.\<close>

definition grading_request :: "js_string option \<Rightarrow> request" where
  "grading_request base64Data =
     \<lparr> model = str ''gemini-2.0-flash-exp'',
       parts =
         [InlineData (str ''image/jpeg'') base64Data,
          Text (str ''Grade this math problem. Identify lines, check correctness, and provide bounding boxes.'')],
       config =
         \<lparr> systemInstruction = system_instruction,
           responseMimeType = str ''application/json'',
           responseSchema = gradingSchema,
           temperature = 1 / 10 \<rparr> \<rparr>"

text \<open>
  The response of the handler, what it wrote to the console, and the requests it made to
  the inference boundary.
\<close>

datatype response_body = ErrorBody js_string | ResultsBody json

record http_response =
  status :: nat
  body :: response_body

datatype console_arg = Logged_text "js_string option" | Logged_error js_error

record outcome =
  response :: http_response
  console :: "(js_string \<times> console_arg) list"
  calls :: "request list"

text \<open>
  \<open>const { image } = await req.json()\<close>: a property of \<open>null\<close> cannot be read; a
  value that is no object of JSON has no property \<open>image\<close>.  The messages of the two
  \<open>TypeError\<close>s of the handler are those of V8.
\<close>

definition destructure_message :: js_string where
  "destructure_message =
     str ''Cannot destructure property '' @ [39] @ str ''image'' @ [39] @ str '' of '' @ [39] @
     str ''(intermediate value)'' @ [39] @ str '' as it is null.''"

definition split_message :: js_string where
  "split_message = str ''image.split is not a function''"

definition destructure_image :: "json \<Rightarrow> js_error + json option" where
  "destructure_image b =
     (case b of
        JNull \<Rightarrow> Inl (Error (Some destructure_message))
      | JObject ms \<Rightarrow> Inr (member ms (str ''image''))
      | _ \<Rightarrow> Inr None)"

text \<open>\<open>!image\<close> holds for \<open>undefined\<close>, \<open>null\<close>, \<open>false\<close>, \<open>0\<close> and \<open>""\<close>.\<close>

fun truthy :: "json option \<Rightarrow> bool" where
  "truthy None = False"
| "truthy (Some JNull) = False"
| "truthy (Some (JBool b)) = b"
| "truthy (Some (JNumber q)) = (q \<noteq> 0)"
| "truthy (Some (JString s)) = (s \<noteq> [])"
| "truthy (Some (JArray vs)) = True"
| "truthy (Some (JObject ms)) = True"

text \<open>\<open>image.split(',')[1]\<close>: only a string has the method \<open>split\<close>.\<close>

definition base64_of :: "json option \<Rightarrow> js_error + js_string option" where
  "base64_of img =
     (case img of
        Some (JString s) \<Rightarrow> Inr (index (split s 44) 1)
      | _ \<Rightarrow> Inl (Error (Some split_message)))"

text \<open>The inner \<open>try\<close>: a missing text makes \<open>replace\<close> throw, which the same \<open>catch\<close> takes.\<close>

definition clean_json :: "js_string \<Rightarrow> js_string" where
  "clean_json outputText = trim (replace_all (str ''```'') [] (replace_all (str ''```json'') [] outputText))"

definition parse_output :: "js_string option \<Rightarrow> json option" where
  "parse_output outputText =
     (case outputText of
        None \<Rightarrow> None
      | Some text \<Rightarrow> JSON_parse (clean_json text))"

text \<open>The outer \<open>catch\<close>.\<close>

definition api_error :: "js_error \<Rightarrow> request list \<Rightarrow> outcome" where
  "api_error e sent =
     \<lparr> response = \<lparr> status = 500, body = ErrorBody (or_else (message e) (str ''Internal Server Error'')) \<rparr>,
       console = [(str ''API Error:'', Logged_error e)],
       calls = sent \<rparr>"

text \<open>
  The handler.  \<open>infer\<close> is the inference boundary: it throws, or returns a response whose
  \<open>text\<close> may be missing.  \<open>req_json\<close> is the outcome of \<open>req.json()\<close>.
\<close>

definition POST :: "(request \<Rightarrow> js_error + js_string option) \<Rightarrow> js_error + json \<Rightarrow> outcome" where
  "POST infer req_json =
     (case req_json of
        Inl e \<Rightarrow> api_error e []
      | Inr b \<Rightarrow>
          (case destructure_image b of
             Inl e \<Rightarrow> api_error e []
           | Inr img \<Rightarrow>
               if \<not> truthy img then
                 \<lparr> response = \<lparr> status = 400, body = ErrorBody (str ''No image data provided'') \<rparr>,
                   console = [],
                   calls = [] \<rparr>
               else
                 (case base64_of img of
                    Inl e \<Rightarrow> api_error e []
                  | Inr base64Data \<Rightarrow>
                      (case infer (grading_request base64Data) of
                         Inl e \<Rightarrow> api_error e [grading_request base64Data]
                       | Inr outputText \<Rightarrow>
                           (case parse_output outputText of
                              None \<Rightarrow>
                                \<lparr> response =
                                    \<lparr> status = 500,
                                      body = ErrorBody (str ''Failed to parse AI response. Please try again.'') \<rparr>,
                                  console = [(str ''JSON Parse Error:'', Logged_text outputText)],
                                  calls = [grading_request base64Data] \<rparr>
                            | Some results \<Rightarrow>
                                \<lparr> response = \<lparr> status = 200, body = ResultsBody results \<rparr>,
                                  console = [],
                                  calls = [grading_request base64Data] \<rparr>)))))"

section \<open>The uploader (\<open>ImageUploader\<close>)\<close>

definition MAX_WIDTH :: nat where
  "MAX_WIDTH = 1024"

definition QUALITY :: rat where
  "QUALITY = 8 / 10"

text \<open>
  \<open>Math.round\<close> rounds to the nearest integer, a half upwards.  The quotient is the exact
  one: the sizes of an image are far below the range where a binary64 quotient could lie
  on the other side of a half than the exact quotient.
\<close>

definition Math_round :: "real \<Rightarrow> int" where
  "Math_round x = \<lfloor>x + 1 / 2\<rfloor>"

text \<open>The resize logic of \<open>img.onload\<close>: the sizes of the canvas for an image of \<open>w\<close> by \<open>h\<close>.\<close>

definition resize :: "nat \<Rightarrow> nat \<Rightarrow> nat \<times> nat" where
  "resize w h =
     (if w > h then
        (if w > MAX_WIDTH
         then (MAX_WIDTH, nat (Math_round (real (h * MAX_WIDTH) / real w)))
         else (w, h))
      else
        (if h > MAX_WIDTH
         then (nat (Math_round (real (w * MAX_WIDTH) / real h)), MAX_WIDTH)
         else (w, h)))"

text \<open>
  The file that was chosen, the canvas, and what the browser does: reading the file as a
  data URL and decoding it (both may never call back), handing out a 2D context (or
  \<open>null\<close>), and encoding a canvas.
\<close>

record js_file =
  file_type :: js_string
  file_bytes :: "nat list"

record canvas =
  canvas_width :: nat
  canvas_height :: nat
  drawn :: "(js_string \<times> nat \<times> nat \<times> nat \<times> nat) list"

record browser =
  readAsDataURL :: "js_file \<Rightarrow> js_string option"
  decode :: "js_string \<Rightarrow> (nat \<times> nat) option"
  getContext :: bool
  toDataURL :: "canvas \<Rightarrow> js_string \<Rightarrow> rat \<Rightarrow> js_string"

datatype ui_event =
    Alert js_string
  | SetIsProcessing bool
  | OnImageProcessed js_string js_string

text \<open>What \<open>img.onload\<close> does for a decoded image \<open>src\<close> of \<open>w\<close> by \<open>h\<close>.\<close>

definition img_onload :: "browser \<Rightarrow> js_string \<Rightarrow> nat \<Rightarrow> nat \<Rightarrow> ui_event list" where
  "img_onload b src w h =
     (case resize w h of (width, height) \<Rightarrow>
        (if getContext b then
           (let compressedBase64 =
                  toDataURL b
                    \<lparr> canvas_width = width, canvas_height = height,
                      drawn = [(src, 0, 0, width, height)] \<rparr>
                    (str ''image/jpeg'') QUALITY
            in [OnImageProcessed compressedBase64 compressedBase64])
         else []) @
        [SetIsProcessing False])"

text \<open>\<open>handleFileChange\<close>, for the first file of the input, if there is one.\<close>

definition handleFileChange :: "browser \<Rightarrow> js_file option \<Rightarrow> ui_event list" where
  "handleFileChange b chosen =
     (case chosen of
        None \<Rightarrow> []
      | Some f \<Rightarrow>
          if \<not> startsWith (file_type f) (str ''image/'') then
            [Alert (str ''Please select a valid image file'')]
          else
            SetIsProcessing True #
            (case readAsDataURL b f of
               None \<Rightarrow> []
             | Some url \<Rightarrow>
                 (case decode b url of
                    None \<Rightarrow> []
                  | Some (w, h) \<Rightarrow> img_onload b url w h)))"

section \<open>The page (\<open>Home\<close>)\<close>

record home_state =
  imageSrc :: "js_string option"
  results :: "json option"
  isLoading :: bool
  error :: "js_string option"

definition response_ok :: "http_response \<Rightarrow> bool" where
  "response_ok r \<longleftrightarrow> 200 \<le> status r \<and> status r \<le> 299"

definition data_error :: "response_body \<Rightarrow> js_string option" where
  "data_error d = (case d of ErrorBody e \<Rightarrow> Some e | ResultsBody v \<Rightarrow> None)"

definition data_results :: "response_body \<Rightarrow> json option" where
  "data_results d = (case d of ErrorBody e \<Rightarrow> None | ResultsBody v \<Rightarrow> Some v)"

text \<open>
  \<open>gradeImage\<close>: the request goes to the endpoint \<open>server\<close> (the transport itself does
  not fail here).  Besides the new state, the requests that reached the inference boundary
  are returned.
\<close>

definition gradeImage :: "(json \<Rightarrow> outcome) \<Rightarrow> js_string \<Rightarrow> home_state \<Rightarrow> home_state \<times> request list" where
  "gradeImage server base64Image st =
     (let out = server (JObject [(str ''image'', JString base64Image)]);
          st1 = st\<lparr> isLoading := True \<rparr>;
          st2 = (if \<not> response_ok (response out)
                 then st1\<lparr> error :=
                        Some (or_else (Some (or_else (data_error (body (response out)))
                                               (str ''Failed to grade image'')))
                                      (str ''Something went wrong'')) \<rparr>
                 else st1\<lparr> results := data_results (body (response out)) \<rparr>)
      in (st2\<lparr> isLoading := False \<rparr>, calls out))"

definition handleImageProcessed ::
    "(json \<Rightarrow> outcome) \<Rightarrow> js_string \<Rightarrow> js_string \<Rightarrow> home_state \<Rightarrow> home_state \<times> request list" where
  "handleImageProcessed server base64Data displayUrl st =
     gradeImage server base64Data (st\<lparr> imageSrc := Some displayUrl, results := None, error := None \<rparr>)"

text \<open>
  One upload, from the chosen file to the state of the page: the uploader's call of
  \<open>onImageProcessed\<close> is the page's \<open>handleImageProcessed\<close>, whose request is served by
  the handler \<open>POST\<close>.
\<close>

fun deliver ::
    "(json \<Rightarrow> outcome) \<Rightarrow> home_state \<times> request list \<Rightarrow> ui_event \<Rightarrow> home_state \<times> request list" where
  "deliver server (st, sent) (OnImageProcessed base64Image displayUrl) =
     (case handleImageProcessed server base64Image displayUrl st of
        (st', reqs) \<Rightarrow> (st', sent @ reqs))"
| "deliver server (st, sent) (Alert m) = (st, sent)"
| "deliver server (st, sent) (SetIsProcessing p) = (st, sent)"

definition upload ::
    "browser \<Rightarrow> (request \<Rightarrow> js_error + js_string option) \<Rightarrow> js_file option \<Rightarrow> home_state \<Rightarrow>
     home_state \<times> request list" where
  "upload b infer chosen st =
     foldl (deliver (\<lambda>req_body. POST infer (Inr req_body))) (st, []) (handleFileChange b chosen)"

subsection \<open>Numbers and their text\<close>

text \<open>
  A number of JavaScript is a binary64 value: a finite one is given by its exact value, a
  rational; zero has no sign here (the text of \<open>-0\<close> is \<open>0\<close> as well).
\<close>

datatype js_number = Num rat | PlusInfinity | MinusInfinity | NaN

text \<open>
  \<open>Number_value q\<close> is the Number value for \<open>q\<close> of ECMAScript: \<open>q\<close> rounded to the
  nearest binary64 value, a tie to the even significand, with 53 bits above the exponent
  \<open>-1022\<close>, the fixed unit \<open>2 ^ -1074\<close> below it, and an infinity from \<open>2 ^ 1024\<close> on.
  \<open>binary_exponent a\<close> is the \<open>e\<close> with \<open>2 ^ e \<le> a < 2 ^ (e + 1)\<close>.
\<close>

fun ilog2 :: "nat \<Rightarrow> nat" where
  "ilog2 n = (if n < 2 then 0 else Suc (ilog2 (n div 2)))"

declare ilog2.simps [simp del]

definition pow2 :: "int \<Rightarrow> rat" where
  "pow2 e = (if 0 \<le> e then 2 ^ nat e else 1 / 2 ^ nat (- e))"

definition binary_exponent :: "rat \<Rightarrow> int" where
  "binary_exponent a =
     (if 1 \<le> a then int (ilog2 (nat \<lfloor>a\<rfloor>))
      else - int (ilog2 (nat \<lceil>1 / a\<rceil> - 1)) - 1)"

definition round_half_even :: "rat \<Rightarrow> int" where
  "round_half_even r =
     (let f = \<lfloor>r\<rfloor>; d = r - of_int f
      in if d < 1 / 2 then f
         else if 1 / 2 < d then f + 1
         else if even f then f else f + 1)"

definition Number_value :: "rat \<Rightarrow> js_number" where
  "Number_value q =
     (if q = 0 then Num 0
      else
        (let a = \<bar>q\<bar>;
             e = max (binary_exponent a) (- 1022);
             ulp = pow2 (e - 52);
             r = of_int (round_half_even (a / ulp)) * ulp
         in if 2 ^ 1024 \<le> r then (if 0 < q then PlusInfinity else MinusInfinity)
            else Num (if 0 < q then r else - r)))"

text \<open>The operators \<open>-\<close> and \<open>/\<close> on numbers.\<close>

fun js_minus :: "js_number \<Rightarrow> js_number \<Rightarrow> js_number" where
  "js_minus (Num a) (Num b) = Number_value (a - b)"
| "js_minus NaN y = NaN"
| "js_minus x NaN = NaN"
| "js_minus PlusInfinity PlusInfinity = NaN"
| "js_minus MinusInfinity MinusInfinity = NaN"
| "js_minus PlusInfinity y = PlusInfinity"
| "js_minus MinusInfinity y = MinusInfinity"
| "js_minus (Num a) PlusInfinity = MinusInfinity"
| "js_minus (Num a) MinusInfinity = PlusInfinity"

fun js_divide :: "js_number \<Rightarrow> js_number \<Rightarrow> js_number" where
  "js_divide (Num a) (Num b) =
     (if b = 0 then (if a = 0 then NaN else if 0 < a then PlusInfinity else MinusInfinity)
      else Number_value (a / b))"
| "js_divide NaN y = NaN"
| "js_divide x NaN = NaN"
| "js_divide (Num a) y = Num 0"
| "js_divide PlusInfinity (Num b) = (if 0 \<le> b then PlusInfinity else MinusInfinity)"
| "js_divide MinusInfinity (Num b) = (if 0 \<le> b then MinusInfinity else PlusInfinity)"
| "js_divide x y = NaN"

text \<open>
  \<open>Number_toString\<close> is \<open>Number::toString\<close> with radix 10: the fewest digits \<open>s\<close>, at
  most seventeen, and the exponent \<open>n\<close> such that \<open>s * 10 ^ (n - k)\<close> has the number as
  its Number value (of two such \<open>s\<close> the closer one), in positional notation for
  \<open>-6 < n \<le> 21\<close> and with an exponent otherwise.  \<open>decimal_exponent x\<close> is the \<open>n\<close>
  with \<open>10 ^ (n - 1) \<le> x < 10 ^ n\<close>.
\<close>

fun ndigits :: "nat \<Rightarrow> nat" where
  "ndigits n = (if n < 10 then 1 else Suc (ndigits (n div 10)))"

declare ndigits.simps [simp del]

fun decimal :: "nat \<Rightarrow> js_string" where
  "decimal n = (if n < 10 then [48 + n] else decimal (n div 10) @ [48 + n mod 10])"

declare decimal.simps [simp del]

definition pow10 :: "int \<Rightarrow> rat" where
  "pow10 e = (if 0 \<le> e then 10 ^ nat e else 1 / 10 ^ nat (- e))"

definition decimal_exponent :: "rat \<Rightarrow> int" where
  "decimal_exponent x =
     (if 1 \<le> x then int (ndigits (nat \<lfloor>x\<rfloor>))
      else 1 - int (ndigits (nat \<lceil>1 / x\<rceil> - 1)))"

definition digits_candidate :: "rat \<Rightarrow> int \<Rightarrow> nat \<Rightarrow> int option" where
  "digits_candidate x n k =
     (let scale = pow10 (n - int k);
          q = x / scale;
          lo = \<lfloor>q\<rfloor>;
          hi = \<lceil>q\<rceil>;
          ok_lo = (Number_value (of_int lo * scale) = Num x);
          ok_hi = (Number_value (of_int hi * scale) = Num x)
      in if ok_lo \<and> ok_hi then
           Some (if q - of_int lo < of_int hi - q then lo
                 else if of_int hi - q < q - of_int lo then hi
                 else if even lo then lo else hi)
         else if ok_lo then Some lo
         else if ok_hi then Some hi
         else None)"

fun shortest_digits :: "rat \<Rightarrow> int \<Rightarrow> nat list \<Rightarrow> (int \<times> nat) option" where
  "shortest_digits x n [] = None"
| "shortest_digits x n (k # ks) =
     (case digits_candidate x n k of
        Some s \<Rightarrow> Some (s, k)
      | None \<Rightarrow> shortest_digits x n ks)"

fun zeros :: "nat \<Rightarrow> js_string" where
  "zeros n = (if n = 0 then [] else 48 # zeros (n - 1))"

declare zeros.simps [simp del]

definition format_digits :: "js_string \<Rightarrow> int \<Rightarrow> js_string" where
  "format_digits ds n =
     (let k = int (length ds)
      in if k \<le> n \<and> n \<le> 21 then ds @ zeros (nat (n - k))
         else if 0 < n \<and> n \<le> 21 then take (nat n) ds @ [46] @ drop (nat n) ds
         else if - 6 < n \<and> n \<le> 0 then [48, 46] @ zeros (nat (- n)) @ ds
         else
           (if k = 1 then ds else [hd ds, 46] @ tl ds) @ [101] @
           (if 0 \<le> n - 1 then [43] else [45]) @ decimal (nat \<bar>n - 1\<bar>))"

definition positive_text :: "rat \<Rightarrow> js_string" where
  "positive_text x =
     (let n = decimal_exponent x
      in case shortest_digits x n [1, 2, 3, 4, 5, 6, 7, 8, 9, 10, 11, 12, 13, 14, 15, 16, 17] of
           Some (s, k) \<Rightarrow>
             if s = 10 ^ k then format_digits [49] (n + 1)
             else format_digits (decimal (nat s)) n
         | None \<Rightarrow> format_digits (decimal (nat (round_half_even (x / pow10 (n - 17))))) n)"

fun Number_toString :: "js_number \<Rightarrow> js_string" where
  "Number_toString NaN = str ''NaN''"
| "Number_toString PlusInfinity = str ''Infinity''"
| "Number_toString MinusInfinity = str ''-Infinity''"
| "Number_toString (Num q) =
     (if q = 0 then str ''0''
      else if q < 0 then 45 # positive_text (- q)
      else positive_text q)"

text \<open>\<open>getBoxStyle\<close>; the template literals are the text of the number and a percent sign.\<close>

record box_style =
  style_top :: js_string
  style_left :: js_string
  style_height :: js_string
  style_width :: js_string

definition getBoxStyle :: "js_number \<times> js_number \<times> js_number \<times> js_number \<Rightarrow> box_style" where
  "getBoxStyle box =
     (case box of (ymin, xmin, ymax, xmax) \<Rightarrow>
        \<lparr> style_top = Number_toString (js_divide ymin (Num 10)) @ str ''%'',
          style_left = Number_toString (js_divide xmin (Num 10)) @ str ''%'',
          style_height = Number_toString (js_divide (js_minus ymax ymin) (Num 10)) @ str ''%'',
          style_width = Number_toString (js_divide (js_minus xmax xmin) (Num 10)) @ str ''%'' \<rparr>)"

text \<open>The state of the page before the first upload.\<close>

definition initial_state :: home_state where
  "initial_state = \<lparr> imageSrc = None, results = None, isLoading = False, error = None \<rparr>"

section \<open>Sample requests and model outputs\<close>

text \<open>
  A request with a data URL, the minimal valid output of the specification, outputs with
  backticks inside a string, and outputs that are cut off, no array, or short of fields.
\<close>

definition sample_request :: json where
  "sample_request = JObject [(str ''image'', JString (str ''data:image/jpeg;base64,QUJD''))]"

definition minimal_output :: js_string where
  \<open>minimal_output =
     str ''[{"lineNumber":1,"latex":"2+2=4","isCorrect":true,"explanation":"","boundingBox":[0,0,100,500]}]''\<close>

definition minimal_results :: json where
  "minimal_results =
     JArray [JObject
       [(str ''lineNumber'', JNumber 1), (str ''latex'', JString (str ''2+2=4'')),
        (str ''isCorrect'', JBool True), (str ''explanation'', JString []),
        (str ''boundingBox'', JArray [JNumber 0, JNumber 0, JNumber 100, JNumber 500])]]"

definition explained_output :: js_string where
  \<open>explained_output =
     str ''[{"lineNumber":1,"latex":"2+2=5","isCorrect":false,"explanation":"Write ```2+2=4```","boundingBox":[0,0,100,500]}]''\<close>

definition ticked_output :: js_string where
  \<open>ticked_output =
     str ''[{"lineNumber":1,"latex":"```2+2=4```","isCorrect":true,"explanation":"","boundingBox":[0,0,100,500]}]''\<close>

definition truncated_output :: js_string where
  \<open>truncated_output = str ''[{"lineNumber":1,''\<close>

definition object_output :: js_string where
  \<open>object_output = str ''{"lineNumber":1}''\<close>

definition incomplete_output :: js_string where
  \<open>incomplete_output = str ''[{"lineNumber":1}]''\<close>

definition null_output :: js_string where
  "null_output = str ''null''"

text \<open>The definitions that evaluate the parser on a given text.\<close>

lemmas json_eval = str_def startsWith_def js_whitespace_def trim_def json_ws_def is_digit_def
  is_letter_def number_char_def hex_val_def hex4_def escape_def digits_value_def number_of_def
  literal_of_def begin_value_def begin_member_def close_array_def close_object_def next_item_def
  step_def JSON_parse_def clean_json_def parse_output_def Let_def

text \<open>Floors and ceilings of numerals, and the definitions that evaluate a number and its text.\<close>

lemma floor_rat_numeral [simp]: "\<lfloor>numeral a / numeral b :: rat\<rfloor> = numeral a div numeral b"
  by (metis floor_divide_of_int_eq of_int_numeral)

lemma floor_rat_one [simp]: "\<lfloor>1 / numeral b :: rat\<rfloor> = 1 div numeral b"
  by (metis floor_divide_of_int_eq of_int_1 of_int_numeral)

lemma ceiling_rat_numeral [simp]:
  "\<lceil>numeral a / numeral b :: rat\<rceil> = - (- numeral a div numeral b)"
  by (metis ceiling_def divide_minus_left floor_divide_of_int_eq of_int_neg_numeral of_int_numeral)

lemma ceiling_rat_one [simp]: "\<lceil>1 / numeral b :: rat\<rceil> = - (- 1 div numeral b)"
  by (metis ceiling_def divide_minus_left floor_divide_of_int_eq of_int_1 of_int_minus of_int_numeral)

lemmas number_eval = Number_value_def binary_exponent_def round_half_even_def pow2_def pow10_def
  decimal_exponent_def digits_candidate_def format_digits_def positive_text_def ilog2.simps
  ndigits.simps decimal.simps zeros.simps Let_def

section \<open>Properties of the uploader\<close>

lemma Math_round_is_round: "Math_round x = round x"
  by (simp add: Math_round_def round_def)

lemma Math_round_near: "\<bar>real_of_int (Math_round x) - x\<bar> \<le> 1 / 2"
  unfolding Math_round_is_round by (rule of_int_round_abs_le)

lemma Math_round_nonneg: "0 \<le> x \<Longrightarrow> 0 \<le> Math_round x"
  by (simp add: Math_round_def)

lemma scaled_near:
  assumes "0 \<le> x"
  shows "\<bar>real (nat (Math_round x)) - x\<bar> \<le> 1 / 2"
  using Math_round_near [of x] Math_round_nonneg [OF assms] by simp

lemma scaled_le:
  assumes "a \<le> b" "0 < b"
  shows "nat (Math_round (real (a * MAX_WIDTH) / real b)) \<le> MAX_WIDTH"
proof -
  have "a * MAX_WIDTH \<le> MAX_WIDTH * b"
    using assms by (simp add: mult.commute)
  then have "real (a * MAX_WIDTH) \<le> real (MAX_WIDTH * b)"
    by (rule of_nat_mono)
  then have "real (a * MAX_WIDTH) / real b \<le> real MAX_WIDTH"
    using assms by (simp add: divide_le_eq)
  then have "Math_round (real (a * MAX_WIDTH) / real b) \<le> int MAX_WIDTH"
    unfolding Math_round_def by (simp add: floor_le_iff)
  then show ?thesis by simp
qed

text \<open>
  C3.  An image whose larger side is at most 1024 keeps its sizes.  Otherwise the larger
  side becomes exactly 1024 and the other side is the exact proportional size
  \<open>side * 1024 / larger\<close> rounded to the nearest integer: the larger of the new sizes is
  1024, and the new smaller side is within half a pixel of the exact proportional size, so
  the aspect ratio is kept up to that rounding.  The sizes are a function of \<open>W\<close> and \<open>H\<close>
  alone.
\<close>

theorem resize_spec:
  "(max W H \<le> MAX_WIDTH \<longrightarrow> resize W H = (W, H)) \<and>
   (MAX_WIDTH < max W H \<longrightarrow>
      max (fst (resize W H)) (snd (resize W H)) = MAX_WIDTH \<and>
      (H < W \<longrightarrow>
         resize W H = (MAX_WIDTH, nat (Math_round (real (H * MAX_WIDTH) / real W))) \<and>
         \<bar>real (snd (resize W H)) - real H * (real MAX_WIDTH / real W)\<bar> \<le> 1 / 2) \<and>
      (W \<le> H \<longrightarrow>
         resize W H = (nat (Math_round (real (W * MAX_WIDTH) / real H)), MAX_WIDTH) \<and>
         \<bar>real (fst (resize W H)) - real W * (real MAX_WIDTH / real H)\<bar> \<le> 1 / 2))"
proof (intro conjI impI)
  assume "max W H \<le> MAX_WIDTH"
  then show "resize W H = (W, H)" by (auto simp: resize_def)
next
  assume big: "MAX_WIDTH < max W H"
  show "max (fst (resize W H)) (snd (resize W H)) = MAX_WIDTH"
  proof (cases "H < W")
    case True
    with big have "MAX_WIDTH < W" by simp
    moreover have "nat (Math_round (real (H * MAX_WIDTH) / real W)) \<le> MAX_WIDTH"
      using True by (intro scaled_le) simp_all
    ultimately show ?thesis using True by (simp add: resize_def)
  next
    case False
    with big have "MAX_WIDTH < H" by simp
    moreover have "nat (Math_round (real (W * MAX_WIDTH) / real H)) \<le> MAX_WIDTH"
      using False calculation by (intro scaled_le) simp_all
    ultimately show ?thesis using False by (simp add: resize_def)
  qed
next
  assume big: "MAX_WIDTH < max W H" and wide: "H < W"
  then show r: "resize W H = (MAX_WIDTH, nat (Math_round (real (H * MAX_WIDTH) / real W)))"
    by (simp add: resize_def)
  show "\<bar>real (snd (resize W H)) - real H * (real MAX_WIDTH / real W)\<bar> \<le> 1 / 2"
    using scaled_near [of "real (H * MAX_WIDTH) / real W"] by (simp add: r)
next
  assume big: "MAX_WIDTH < max W H" and tall: "W \<le> H"
  then show r: "resize W H = (nat (Math_round (real (W * MAX_WIDTH) / real H)), MAX_WIDTH)"
    by (auto simp: resize_def)
  show "\<bar>real (fst (resize W H)) - real W * (real MAX_WIDTH / real H)\<bar> \<le> 1 / 2"
    using scaled_near [of "real (W * MAX_WIDTH) / real H"] by (simp add: r)
qed

theorem resize_spec_witness:
  "max (800::nat) 600 \<le> MAX_WIDTH \<and> resize 800 600 = (800, 600) \<and>
   MAX_WIDTH < max (2000::nat) 1500 \<and> resize 2000 1500 = (1024, 768) \<and>
   max (fst (resize 2000 1500)) (snd (resize 2000 1500)) = MAX_WIDTH \<and>
   MAX_WIDTH < max (3000::nat) 4001 \<and> resize 3000 4001 = (768, 1024) \<and>
   \<bar>real (fst (resize 3000 4001)) - real 3000 * (real MAX_WIDTH / real 4001)\<bar> \<le> 1 / 2"
  using resize_spec [of 800 600] resize_spec [of 2000 1500] resize_spec [of 3000 4001]
  by (simp add: MAX_WIDTH_def Math_round_def)

text \<open>
  C7.  A file whose declared media type does not start with \<open>image/\<close> is rejected: the
  only effect is the alert asking for a valid image, the page is left as it was, and no
  request reaches the inference boundary, whatever the browser and the boundary would do.
\<close>

theorem non_image_rejected:
  "\<not> startsWith (file_type f) (str ''image/'') \<Longrightarrow>
     handleFileChange b (Some f) = [Alert (str ''Please select a valid image file'')] \<and>
     upload b infer (Some f) st = (st, [])"
  by (simp add: handleFileChange_def upload_def)

theorem non_image_rejected_witness:
  "\<not> startsWith (str ''application/pdf'') (str ''image/'') \<and>
   handleFileChange
     \<lparr> readAsDataURL = (\<lambda>f. Some (str ''data:application/pdf;base64,JVBERg=='')),
       decode = (\<lambda>u. Some (800, 600)), getContext = True,
       toDataURL = (\<lambda>c m q. str ''data:image/jpeg;base64,QUJD'') \<rparr>
     (Some \<lparr> file_type = str ''application/pdf'', file_bytes = [37, 80, 68, 70] \<rparr>) =
     [Alert (str ''Please select a valid image file'')] \<and>
   upload
     \<lparr> readAsDataURL = (\<lambda>f. Some (str ''data:application/pdf;base64,JVBERg=='')),
       decode = (\<lambda>u. Some (800, 600)), getContext = True,
       toDataURL = (\<lambda>c m q. str ''data:image/jpeg;base64,QUJD'') \<rparr>
     (\<lambda>r. Inr (Some (str ''[]'')))
     (Some \<lparr> file_type = str ''application/pdf'', file_bytes = [37, 80, 68, 70] \<rparr>)
     initial_state = (initial_state, [])"
  using non_image_rejected
    [of "\<lparr> file_type = str ''application/pdf'', file_bytes = [37, 80, 68, 70] \<rparr>"
        "\<lparr> readAsDataURL = (\<lambda>f. Some (str ''data:application/pdf;base64,JVBERg=='')),
           decode = (\<lambda>u. Some (800, 600)), getContext = True,
           toDataURL = (\<lambda>c m q. str ''data:image/jpeg;base64,QUJD'') \<rparr>"
        "\<lambda>r. Inr (Some (str ''[]''))" initial_state]
  by (simp add: startsWith_def str_def)

text \<open>
  C5 (as amended).  For a file that declares an image media type, that the browser reads
  and decodes, and for which the canvas hands out a 2D context, the canvas is encoded once,
  as \<open>image/jpeg\<close> with the quality 0.8, whether or not the sizes changed; that one data
  URL is both arguments of \<open>onImageProcessed\<close>, so it becomes the image source of the
  page and the \<open>image\<close> of the request to the endpoint.
\<close>

theorem image_reencoded:
  assumes "startsWith (file_type f) (str ''image/'')"
    and "readAsDataURL b f = Some url"
    and "decode b url = Some (w, h)"
    and "getContext b"
  shows "(let payload =
            toDataURL b
              \<lparr> canvas_width = fst (resize w h), canvas_height = snd (resize w h),
                drawn = [(url, 0, 0, fst (resize w h), snd (resize w h))] \<rparr>
              (str ''image/jpeg'') QUALITY
          in handleFileChange b (Some f) =
               [SetIsProcessing True, OnImageProcessed payload payload, SetIsProcessing False] \<and>
             QUALITY = 8 / 10 \<and>
             upload b infer (Some f) st =
               gradeImage (\<lambda>req_body. POST infer (Inr req_body)) payload
                 (st\<lparr> imageSrc := Some payload, results := None, error := None \<rparr>) \<and>
             imageSrc (fst (upload b infer (Some f) st)) = Some payload \<and>
             snd (upload b infer (Some f) st) =
               calls (POST infer (Inr (JObject [(str ''image'', JString payload)]))))"
  using assms
  by (simp add: handleFileChange_def img_onload_def upload_def handleImageProcessed_def
      gradeImage_def Let_def QUALITY_def split: prod.splits)

theorem image_reencoded_witness:
  "startsWith (str ''image/png'') (str ''image/'') \<and>
   handleFileChange
     \<lparr> readAsDataURL = (\<lambda>f. Some (str ''data:image/png;base64,iVBORw=='')),
       decode = (\<lambda>u. Some (800, 600)), getContext = True,
       toDataURL = (\<lambda>c m q. str ''data:image/jpeg;base64,QUJD'') \<rparr>
     (Some \<lparr> file_type = str ''image/png'', file_bytes = [137, 80, 78, 71] \<rparr>) =
     [SetIsProcessing True,
      OnImageProcessed (str ''data:image/jpeg;base64,QUJD'') (str ''data:image/jpeg;base64,QUJD''),
      SetIsProcessing False] \<and>
   imageSrc (fst (upload
     \<lparr> readAsDataURL = (\<lambda>f. Some (str ''data:image/png;base64,iVBORw=='')),
       decode = (\<lambda>u. Some (800, 600)), getContext = True,
       toDataURL = (\<lambda>c m q. str ''data:image/jpeg;base64,QUJD'') \<rparr>
     (\<lambda>r. Inr (Some (str ''[]'')))
     (Some \<lparr> file_type = str ''image/png'', file_bytes = [137, 80, 78, 71] \<rparr>)
     initial_state)) = Some (str ''data:image/jpeg;base64,QUJD'')"
  using image_reencoded
    [of "\<lparr> file_type = str ''image/png'', file_bytes = [137, 80, 78, 71] \<rparr>"
        "\<lparr> readAsDataURL = (\<lambda>f. Some (str ''data:image/png;base64,iVBORw=='')),
           decode = (\<lambda>u. Some (800, 600)), getContext = True,
           toDataURL = (\<lambda>c m q. str ''data:image/jpeg;base64,QUJD'') \<rparr>"
        "str ''data:image/png;base64,iVBORw==''" 800 600
        "\<lambda>r. Inr (Some (str ''[]''))" initial_state]
  by (simp add: startsWith_def str_def Let_def gradeImage_def)

text \<open>
  C5 as stated fails where the canvas hands out no 2D context: the image is decoded, but
  nothing is encoded and \<open>onImageProcessed\<close> is not called.
\<close>

theorem no_context_counterexample:
  "startsWith (str ''image/png'') (str ''image/'') \<and>
   handleFileChange
     \<lparr> readAsDataURL = (\<lambda>f. Some (str ''data:image/png;base64,iVBORw=='')),
       decode = (\<lambda>u. Some (800, 600)), getContext = False,
       toDataURL = (\<lambda>c m q. str ''data:image/jpeg;base64,QUJD'') \<rparr>
     (Some \<lparr> file_type = str ''image/png'', file_bytes = [137, 80, 78, 71] \<rparr>) =
     [SetIsProcessing True, SetIsProcessing False] \<and>
   upload
     \<lparr> readAsDataURL = (\<lambda>f. Some (str ''data:image/png;base64,iVBORw=='')),
       decode = (\<lambda>u. Some (800, 600)), getContext = False,
       toDataURL = (\<lambda>c m q. str ''data:image/jpeg;base64,QUJD'') \<rparr>
     (\<lambda>r. Inr (Some (str ''[]'')))
     (Some \<lparr> file_type = str ''image/png'', file_bytes = [137, 80, 78, 71] \<rparr>)
     initial_state = (initial_state, [])"
  by (simp add: handleFileChange_def img_onload_def upload_def startsWith_def str_def
      resize_def MAX_WIDTH_def)


section \<open>Properties of the page\<close>

lemma ilog2_less: "0 < n \<Longrightarrow> n < 2 ^ m \<Longrightarrow> ilog2 n < m"
proof (induction n arbitrary: m rule: ilog2.induct)
  case (1 n)
  show ?case
  proof (cases "n < 2")
    case True
    have "m \<noteq> 0" using 1(2,3) by (cases m) auto
    with True show ?thesis by (simp add: ilog2.simps)
  next
    case False
    obtain m' where m: "m = Suc m'"
      using 1(2,3) by (cases m) auto
    have "n div 2 < 2 ^ m'" using 1(3) m by auto
    moreover have "0 < n div 2" using False by auto
    ultimately have "ilog2 (n div 2) < m'"
      using 1(1) [OF False] by blast
    with False m show ?thesis by (simp add: ilog2.simps)
  qed
qed

lemma round_half_even_int: "round_half_even (of_int n) = n"
  by (simp add: round_half_even_def)

lemma Number_value_int:
  assumes "\<bar>k\<bar> < 2 ^ 53"
  shows "Number_value (of_int k) = Num (of_int k)"
proof (cases "k = 0")
  case True
  then show ?thesis by (simp add: Number_value_def)
next
  case False
  define a :: rat where "a = \<bar>of_int k\<bar>"
  define e where "e = ilog2 (nat \<bar>k\<bar>)"
  have a: "a = of_int \<bar>k\<bar>" by (simp add: a_def)
  have one: "1 \<le> a" using False unfolding a by (simp add: of_int_abs [symmetric] del: of_int_abs)
  have "nat \<bar>k\<bar> < 2 ^ 53" using assms by (simp add: nat_less_iff)
  moreover have "0 < nat \<bar>k\<bar>" using False by simp
  ultimately have e: "e < 53" unfolding e_def by (rule ilog2_less [rotated])
  have "\<lfloor>of_int \<bar>k\<bar> :: rat\<rfloor> = \<bar>k\<bar>"
    by (rule floor_of_int)
  then have fl: "\<lfloor>a\<rfloor> = \<bar>k\<bar>"
    by (simp only: a)
  have be: "binary_exponent a = int e"
    using one by (simp only: binary_exponent_def fl e_def if_True)
  have mx: "max (binary_exponent a) (- 1022) = int e"
    by (simp add: be)
  have ulp: "pow2 (int e - 52) = 1 / 2 ^ (52 - e)"
    using e by (auto simp: pow2_def nat_diff_distrib')
  have q: "a / pow2 (int e - 52) = of_int (\<bar>k\<bar> * 2 ^ (52 - e))"
    by (simp add: ulp a)
  have r: "of_int (round_half_even (a / pow2 (int e - 52))) * pow2 (int e - 52) = a"
    unfolding q round_half_even_int by (simp add: ulp a)
  have small: "\<not> (2 :: rat) ^ 1024 \<le> a"
  proof -
    have "a < 2 ^ 53" using assms unfolding a
      by (metis of_int_less_numeral_power_cancel_iff)
    also have "(2 :: rat) ^ 53 \<le> 2 ^ 1024" by (rule power_increasing) simp_all
    finally show ?thesis by simp
  qed
  have "Number_value (of_int k) = Num (if 0 < (of_int k :: rat) then a else - a)"
    using False small unfolding Number_value_def a_def [symmetric]
    by (simp add: Let_def mx r)
  also have "(if 0 < (of_int k :: rat) then a else - a) = of_int k"
    unfolding a_def by simp
  finally show ?thesis .
qed

text \<open>
  C4 (as amended).  For every box \<open>(ymin, xmin, ymax, xmax)\<close> of integers of magnitude
  below \<open>2 ^ 52\<close> the style is \<open>top = ymin / 10 %\<close>, \<open>left = xmin / 10 %\<close>,
  \<open>height = (ymax - ymin) / 10 %\<close> and \<open>width = (xmax - xmin) / 10 %\<close>, each the text of
  the Number value for the exact tenth followed by a percent sign; the box
  \<open>(0, 0, 1000, 1000)\<close> has the style 0%, 0%, 100%, 100% and the box
  \<open>(500, 500, 600, 600)\<close> the style 50%, 50%, 10%, 10%.
\<close>

theorem getBoxStyle_spec:
  assumes "\<bar>ymin\<bar> < 2 ^ 52" and "\<bar>xmin\<bar> < 2 ^ 52" and "\<bar>ymax\<bar> < 2 ^ 52" and "\<bar>xmax\<bar> < 2 ^ 52"
  shows "getBoxStyle (Num (of_int ymin), Num (of_int xmin), Num (of_int ymax), Num (of_int xmax)) =
           \<lparr> style_top = Number_toString (Number_value (of_int ymin / 10)) @ str ''%'',
             style_left = Number_toString (Number_value (of_int xmin / 10)) @ str ''%'',
             style_height = Number_toString (Number_value (of_int (ymax - ymin) / 10)) @ str ''%'',
             style_width = Number_toString (Number_value (of_int (xmax - xmin) / 10)) @ str ''%'' \<rparr> \<and>
         getBoxStyle (Num 0, Num 0, Num 1000, Num 1000) =
           \<lparr> style_top = str ''0%'', style_left = str ''0%'',
             style_height = str ''100%'', style_width = str ''100%'' \<rparr> \<and>
         getBoxStyle (Num 500, Num 500, Num 600, Num 600) =
           \<lparr> style_top = str ''50%'', style_left = str ''50%'',
             style_height = str ''10%'', style_width = str ''10%'' \<rparr>"
proof (intro conjI)
  have "\<bar>ymax - ymin\<bar> < 2 ^ 53" using assms by simp
  then have h: "Number_value (of_int ymax - of_int ymin) = Num (of_int (ymax - ymin))"
    using Number_value_int [of "ymax - ymin"] by simp
  have "\<bar>xmax - xmin\<bar> < 2 ^ 53" using assms by simp
  then have w: "Number_value (of_int xmax - of_int xmin) = Num (of_int (xmax - xmin))"
    using Number_value_int [of "xmax - xmin"] by simp
  show "getBoxStyle (Num (of_int ymin), Num (of_int xmin), Num (of_int ymax), Num (of_int xmax)) =
           \<lparr> style_top = Number_toString (Number_value (of_int ymin / 10)) @ str ''%'',
             style_left = Number_toString (Number_value (of_int xmin / 10)) @ str ''%'',
             style_height = Number_toString (Number_value (of_int (ymax - ymin) / 10)) @ str ''%'',
             style_width = Number_toString (Number_value (of_int (xmax - xmin) / 10)) @ str ''%'' \<rparr>"
    by (simp add: getBoxStyle_def h w del: of_int_diff)
  show "getBoxStyle (Num 0, Num 0, Num 1000, Num 1000) =
           \<lparr> style_top = str ''0%'', style_left = str ''0%'',
             style_height = str ''100%'', style_width = str ''100%'' \<rparr>"
    by (simp add: getBoxStyle_def number_eval str_def cong: let_weak_cong)
  show "getBoxStyle (Num 500, Num 500, Num 600, Num 600) =
           \<lparr> style_top = str ''50%'', style_left = str ''50%'',
             style_height = str ''10%'', style_width = str ''10%'' \<rparr>"
    by (simp add: getBoxStyle_def number_eval str_def cong: let_weak_cong)
qed

theorem getBoxStyle_spec_witness:
  "\<bar>120 :: int\<bar> < 2 ^ 52 \<and> \<bar>45 :: int\<bar> < 2 ^ 52 \<and> \<bar>187 :: int\<bar> < 2 ^ 52 \<and> \<bar>930 :: int\<bar> < 2 ^ 52 \<and>
   getBoxStyle (Num 120, Num 45, Num 187, Num 930) =
     \<lparr> style_top = str ''12%'', style_left = str ''4.5%'',
       style_height = str ''6.7%'', style_width = str ''88.5%'' \<rparr>"
proof -
  have t: "Number_toString (Number_value (120 / 10)) = str ''12''"
    "Number_toString (Number_value (45 / 10)) = str ''4.5''"
    "Number_toString (Number_value (67 / 10)) = str ''6.7''"
    "Number_toString (Number_value (885 / 10)) = str ''88.5''"
    by (simp_all add: number_eval str_def cong: let_weak_cong)
  from getBoxStyle_spec [of 120 45 187 930] t
  show ?thesis by (simp add: str_def)
qed

text \<open>
  C4 as stated fails for coordinates that are no integers: for the box of the numbers
  0.1, 0.2, 0.3 and 0.7 the height is \<open>0.019999999999999997%\<close> and the width
  \<open>0.049999999999999996%\<close>, not 0.02% and 0.05%, since the difference is rounded before
  the division.
\<close>

theorem inexact_box_counterexample:
  "getBoxStyle (Number_value (1 / 10), Number_value (2 / 10), Number_value (3 / 10),
                Number_value (7 / 10)) =
     \<lparr> style_top = str ''0.01%'', style_left = str ''0.02%'',
       style_height = str ''0.019999999999999997%'',
       style_width = str ''0.049999999999999996%'' \<rparr> \<and>
   str ''0.019999999999999997%'' \<noteq> str ''0.02%'' \<and>
   str ''0.049999999999999996%'' \<noteq> str ''0.05%''"
  by (simp add: getBoxStyle_def number_eval str_def cong: let_weak_cong)

section \<open>Properties of the endpoint\<close>

lemma split_no_sep: "sep \<notin> set s \<Longrightarrow> split s sep = [s]"
  by (induction s) auto

lemma split_at_sep: "sep \<notin> set p \<Longrightarrow> split (p @ sep # rest) sep = p # split rest sep"
  by (induction p) auto

text \<open>
  C8.  For a request whose \<open>image\<close> is a data URL, a prefix without a comma, a comma and a
  base64 payload (which has no comma), the one request made to the inference boundary
  carries the payload alone as its inline data, the directive for a JSON response, the
  temperature 0.1, and a schema that is an array of objects whose properties are exactly
  the five fields of a grading result, all of them required.  The response of the endpoint
  is decided by what the boundary answers to exactly this request.
\<close>

theorem request_payload:
  assumes "member ms (str ''image'') = Some (JString (prefix @ 44 # payload))"
    and "44 \<notin> set prefix" and "44 \<notin> set payload"
  shows "calls (POST infer (Inr (JObject ms))) = [grading_request (Some payload)] \<and>
         parts (grading_request (Some payload)) =
           [InlineData (str ''image/jpeg'') (Some payload),
            Text (str ''Grade this math problem. Identify lines, check correctness, and provide bounding boxes.'')] \<and>
         responseMimeType (config (grading_request (Some payload))) = str ''application/json'' \<and>
         temperature (config (grading_request (Some payload))) = 1 / 10 \<and>
         responseSchema (config (grading_request (Some payload))) = gradingSchema \<and>
         schema_type gradingSchema = ARRAY \<and>
         (case items gradingSchema of
            None \<Rightarrow> False
          | Some obj \<Rightarrow>
              schema_type obj = OBJECT \<and> map fst (properties obj) = grading_fields \<and>
              required obj = grading_fields) \<and>
         response (POST infer (Inr (JObject ms))) =
           (case infer (grading_request (Some payload)) of
              Inl e \<Rightarrow>
                \<lparr> status = 500,
                  body = ErrorBody (or_else (message e) (str ''Internal Server Error'')) \<rparr>
            | Inr outputText \<Rightarrow>
                (case parse_output outputText of
                   None \<Rightarrow>
                     \<lparr> status = 500,
                       body = ErrorBody (str ''Failed to parse AI response. Please try again.'') \<rparr>
                 | Some v \<Rightarrow> \<lparr> status = 200, body = ResultsBody v \<rparr>))"
proof -
  have b: "base64_of (Some (JString (prefix @ 44 # payload))) = Inr (Some payload)"
    using assms(2,3) by (simp add: base64_of_def split_at_sep split_no_sep index_def)
  then have c: "calls (POST infer (Inr (JObject ms))) = [grading_request (Some payload)]"
    using assms(1)
    by (auto simp: POST_def destructure_image_def api_error_def split: sum.splits option.splits)
  have r: "response (POST infer (Inr (JObject ms))) =
           (case infer (grading_request (Some payload)) of
              Inl e \<Rightarrow>
                \<lparr> status = 500,
                  body = ErrorBody (or_else (message e) (str ''Internal Server Error'')) \<rparr>
            | Inr outputText \<Rightarrow>
                (case parse_output outputText of
                   None \<Rightarrow>
                     \<lparr> status = 500,
                       body = ErrorBody (str ''Failed to parse AI response. Please try again.'') \<rparr>
                 | Some v \<Rightarrow> \<lparr> status = 200, body = ResultsBody v \<rparr>))"
    using assms(1) b
    by (auto simp: POST_def destructure_image_def api_error_def split: sum.splits option.splits)
  show ?thesis
    using c r by (simp add: grading_request_def gradingSchema_def grading_fields_def)
qed

theorem request_payload_witness:
  "member [(str ''image'', JString (str ''data:image/jpeg;base64,QUJD''))] (str ''image'') =
     Some (JString (str ''data:image/jpeg;base64'' @ 44 # str ''QUJD'')) \<and>
   44 \<notin> set (str ''data:image/jpeg;base64'') \<and> 44 \<notin> set (str ''QUJD'') \<and>
   calls (POST (\<lambda>r. if r = grading_request (Some (str ''QUJD''))
                       then Inr (Some (str ''[]''))
                       else Inl (Error (Some (str ''Unable to process input image''))))
            (Inr (JObject [(str ''image'', JString (str ''data:image/jpeg;base64,QUJD''))]))) =
     [grading_request (Some (str ''QUJD''))] \<and>
   response (POST (\<lambda>r. if r = grading_request (Some (str ''QUJD''))
                          then Inr (Some (str ''[]''))
                          else Inl (Error (Some (str ''Unable to process input image''))))
               (Inr (JObject [(str ''image'', JString (str ''data:image/jpeg;base64,QUJD''))]))) =
     \<lparr> status = 200, body = ResultsBody (JArray []) \<rparr>"
proof -
  have p: "parse_output (Some (str ''[]'')) = Some (JArray [])"
    by (simp add: json_eval)
  have m: "member [(str ''image'', JString (str ''data:image/jpeg;base64,QUJD''))] (str ''image'') =
      Some (JString (str ''data:image/jpeg;base64'' @ 44 # str ''QUJD''))"
    by (simp add: member_def str_def)
  have n: "44 \<notin> set (str ''data:image/jpeg;base64'')" "44 \<notin> set (str ''QUJD'')"
    by (simp_all add: str_def)
  from request_payload [OF m n,
      of "\<lambda>r. if r = grading_request (Some (str ''QUJD''))
              then Inr (Some (str ''[]''))
              else Inl (Error (Some (str ''Unable to process input image'')))"]
    m n p
  show ?thesis by simp
qed

text \<open>
  C9.  For a request whose \<open>image\<close> is a non-empty string without a comma, the payload is
  \<open>undefined\<close> and the handler still calls the inference boundary, once.  The status is
  never 400: it is 200 or 500, and a failure of the call or of the parsing gives 500.
\<close>

theorem no_comma_not_400:
  assumes "member ms (str ''image'') = Some (JString s)" and "s \<noteq> []" and "44 \<notin> set s"
  shows "calls (POST infer (Inr (JObject ms))) = [grading_request None] \<and>
         status (response (POST infer (Inr (JObject ms)))) \<noteq> 400 \<and>
         (status (response (POST infer (Inr (JObject ms)))) = 200 \<or>
          status (response (POST infer (Inr (JObject ms)))) = 500) \<and>
         (\<forall>e. infer (grading_request None) = Inl e \<longrightarrow>
            response (POST infer (Inr (JObject ms))) =
              \<lparr> status = 500, body = ErrorBody (or_else (message e) (str ''Internal Server Error'')) \<rparr>) \<and>
         (\<forall>t. infer (grading_request None) = Inr t \<and> parse_output t = None \<longrightarrow>
            response (POST infer (Inr (JObject ms))) =
              \<lparr> status = 500, body = ErrorBody (str ''Failed to parse AI response. Please try again.'') \<rparr>)"
proof -
  have "base64_of (Some (JString s)) = Inr None"
    using assms(3) by (simp add: base64_of_def split_no_sep index_def)
  then show ?thesis
    using assms(1,2)
    by (auto simp: POST_def destructure_image_def api_error_def split: sum.splits option.splits)
qed

theorem no_comma_not_400_witness:
  "member [(str ''image'', JString (str ''QUJD''))] (str ''image'') = Some (JString (str ''QUJD'')) \<and>
   str ''QUJD'' \<noteq> [] \<and> 44 \<notin> set (str ''QUJD'') \<and>
   (\<lambda>r. Inl (Error (Some (str ''Unable to process input image'')))) (grading_request None) =
     (Inl (Error (Some (str ''Unable to process input image''))) :: js_error + js_string option) \<and>
   calls (POST (\<lambda>r. Inl (Error (Some (str ''Unable to process input image''))))
            (Inr (JObject [(str ''image'', JString (str ''QUJD''))]))) = [grading_request None] \<and>
   response (POST (\<lambda>r. Inl (Error (Some (str ''Unable to process input image''))))
               (Inr (JObject [(str ''image'', JString (str ''QUJD''))]))) =
     \<lparr> status = 500, body = ErrorBody (str ''Unable to process input image'') \<rparr>"
  using no_comma_not_400
    [of "[(str ''image'', JString (str ''QUJD''))]" "str ''QUJD''"
        "\<lambda>r. Inl (Error (Some (str ''Unable to process input image'')))"]
  by (simp add: member_def str_def or_else_def)

lemma JSON_parse_empty: "JSON_parse [] = None"
  by (simp add: JSON_parse_def)


text \<open>
  C6 (as amended).  The response of the endpoint: status 400 with the error
  \<open>No image data provided\<close> when the image is missing (falsy), and then no call is made;
  status 500 when the inference call throws, with the message of the error if it has a
  non-empty one and \<open>Internal Server Error\<close> otherwise; status 500 with the fixed parse
  message when the output does not parse; status 500 with the message of the exception
  when the body of the request cannot be read, is \<open>null\<close>, or holds an image that is no
  string; status 200 with the parsed value as \<open>results\<close> otherwise.  The status is always
  200, 400 or 500, every response other than 200 has a non-empty \<open>error\<close>, and every
  response 200 has \<open>results\<close>.
\<close>

theorem POST_responses:
  "(\<forall>b img. rq = Inr b \<and> destructure_image b = Inr img \<and> \<not> truthy img \<longrightarrow>
      POST infer rq =
        \<lparr> response = \<lparr> status = 400, body = ErrorBody (str ''No image data provided'') \<rparr>,
          console = [], calls = [] \<rparr>) \<and>
   (\<forall>b img d e. rq = Inr b \<and> destructure_image b = Inr img \<and> truthy img \<and>
        base64_of img = Inr d \<and> infer (grading_request d) = Inl e \<longrightarrow>
      response (POST infer rq) =
        \<lparr> status = 500, body = ErrorBody (or_else (message e) (str ''Internal Server Error'')) \<rparr>) \<and>
   (\<forall>b img d t. rq = Inr b \<and> destructure_image b = Inr img \<and> truthy img \<and>
        base64_of img = Inr d \<and> infer (grading_request d) = Inr t \<and> parse_output t = None \<longrightarrow>
      response (POST infer rq) =
        \<lparr> status = 500, body = ErrorBody (str ''Failed to parse AI response. Please try again.'') \<rparr>) \<and>
   (\<forall>b img d t v. rq = Inr b \<and> destructure_image b = Inr img \<and> truthy img \<and>
        base64_of img = Inr d \<and> infer (grading_request d) = Inr t \<and> parse_output t = Some v \<longrightarrow>
      response (POST infer rq) = \<lparr> status = 200, body = ResultsBody v \<rparr>) \<and>
   (status (response (POST infer rq)) = 200 \<or> status (response (POST infer rq)) = 400 \<or>
    status (response (POST infer rq)) = 500) \<and>
   (status (response (POST infer rq)) \<noteq> 200 \<longrightarrow>
      (\<exists>msg. msg \<noteq> [] \<and> body (response (POST infer rq)) = ErrorBody msg)) \<and>
   (status (response (POST infer rq)) = 200 \<longrightarrow>
      (\<exists>v. body (response (POST infer rq)) = ResultsBody v)) \<and>
   (\<forall>e. rq = Inl e \<longrightarrow>
      POST infer rq =
        \<lparr> response =
            \<lparr> status = 500, body = ErrorBody (or_else (message e) (str ''Internal Server Error'')) \<rparr>,
          console = [(str ''API Error:'', Logged_error e)], calls = [] \<rparr>) \<and>
   (rq = Inr JNull \<longrightarrow>
      POST infer rq =
        \<lparr> response = \<lparr> status = 500, body = ErrorBody destructure_message \<rparr>,
          console = [(str ''API Error:'', Logged_error (Error (Some destructure_message)))],
          calls = [] \<rparr>) \<and>
   (\<forall>ms v. rq = Inr (JObject ms) \<and> member ms (str ''image'') = Some v \<and> truthy (Some v) \<and>
        (\<forall>s. v \<noteq> JString s) \<longrightarrow>
      POST infer rq =
        \<lparr> response = \<lparr> status = 500, body = ErrorBody split_message \<rparr>,
          console = [(str ''API Error:'', Logged_error (Error (Some split_message)))],
          calls = [] \<rparr>) \<and>
   (\<forall>b. rq = Inr b \<and> b \<noteq> JNull \<and> (\<forall>ms. b \<noteq> JObject ms) \<longrightarrow>
      status (response (POST infer rq)) = 400) \<and>
   (\<forall>ms. rq = Inr (JObject ms) \<and> \<not> truthy (member ms (str ''image'')) \<longrightarrow>
      status (response (POST infer rq)) = 400) \<and>
   (\<forall>ms s. rq = Inr (JObject ms) \<and> member ms (str ''image'') = Some (JString s) \<and> s \<noteq> [] \<longrightarrow>
      response (POST infer rq) =
        (case infer (grading_request (index (split s 44) 1)) of
           Inl e \<Rightarrow>
             \<lparr> status = 500,
               body = ErrorBody (or_else (message e) (str ''Internal Server Error'')) \<rparr>
         | Inr outputText \<Rightarrow>
             (case parse_output outputText of
                None \<Rightarrow>
                  \<lparr> status = 500,
                    body = ErrorBody (str ''Failed to parse AI response. Please try again.'') \<rparr>
              | Some v \<Rightarrow> \<lparr> status = 200, body = ResultsBody v \<rparr>)))"
proof (intro conjI)
  show "\<forall>ms v. rq = Inr (JObject ms) \<and> member ms (str ''image'') = Some v \<and> truthy (Some v) \<and>
        (\<forall>s. v \<noteq> JString s) \<longrightarrow>
      POST infer rq =
        \<lparr> response = \<lparr> status = 500, body = ErrorBody split_message \<rparr>,
          console = [(str ''API Error:'', Logged_error (Error (Some split_message)))],
          calls = [] \<rparr>"
  proof (intro allI impI)
    fix ms v
    assume a: "rq = Inr (JObject ms) \<and> member ms (str ''image'') = Some v \<and> truthy (Some v) \<and>
        (\<forall>s. v \<noteq> JString s)"
    then have "base64_of (Some v) = Inl (Error (Some split_message))"
      by (cases v) (auto simp: base64_of_def)
    with a show "POST infer rq =
        \<lparr> response = \<lparr> status = 500, body = ErrorBody split_message \<rparr>,
          console = [(str ''API Error:'', Logged_error (Error (Some split_message)))],
          calls = [] \<rparr>"
      by (simp add: POST_def destructure_image_def api_error_def or_else_def split_message_def
          str_def)
  qed
  show "\<forall>b. rq = Inr b \<and> b \<noteq> JNull \<and> (\<forall>ms. b \<noteq> JObject ms) \<longrightarrow>
      status (response (POST infer rq)) = 400"
  proof (intro allI impI)
    fix b
    assume "rq = Inr b \<and> b \<noteq> JNull \<and> (\<forall>ms. b \<noteq> JObject ms)"
    then show "status (response (POST infer rq)) = 400"
      by (cases b) (auto simp: POST_def destructure_image_def)
  qed
qed (auto simp: POST_def api_error_def or_else_def str_def destructure_image_def
      destructure_message_def base64_of_def split: sum.splits option.splits)

theorem POST_responses_witness:
  "POST (\<lambda>r. Inl (Error (Some (str ''Quota exceeded'')))) (Inr (JObject [])) =
     \<lparr> response = \<lparr> status = 400, body = ErrorBody (str ''No image data provided'') \<rparr>,
       console = [], calls = [] \<rparr> \<and>
   response (POST (\<lambda>r. Inl (Error (Some (str ''Quota exceeded'')))) (Inr sample_request)) =
     \<lparr> status = 500, body = ErrorBody (str ''Quota exceeded'') \<rparr> \<and>
   response (POST (\<lambda>r. Inl (Error (Some (str ''Quota exceeded''))))
               (Inl (Error (Some (str ''Unexpected end of JSON input''))))) =
     \<lparr> status = 500, body = ErrorBody (str ''Unexpected end of JSON input'') \<rparr> \<and>
   response (POST (\<lambda>r. Inl (Error (Some (str ''Quota exceeded''))))
               (Inr (JObject [(str ''image'', JNumber 7)]))) =
     \<lparr> status = 500, body = ErrorBody split_message \<rparr>"
  using POST_responses [of "Inr (JObject [])" "\<lambda>r. Inl (Error (Some (str ''Quota exceeded'')))"]
    POST_responses [of "Inr sample_request" "\<lambda>r. Inl (Error (Some (str ''Quota exceeded'')))"]
    POST_responses [of "Inl (Error (Some (str ''Unexpected end of JSON input'')))"
                       "\<lambda>r. Inl (Error (Some (str ''Quota exceeded'')))"]
    POST_responses [of "Inr (JObject [(str ''image'', JNumber 7)])"
                       "\<lambda>r. Inl (Error (Some (str ''Quota exceeded'')))"]
  by (simp add: sample_request_def destructure_image_def member_def base64_of_def index_def
      str_def or_else_def split_message_def)

text \<open>
  C6 as stated fails in the generic message and in the shape of the results: an inference
  error without a message is answered with \<open>Internal Server Error\<close>, which is also what
  the page then shows (its own fallback \<open>Failed to grade image\<close> is not reached); and the
  model output \<open>null\<close> is answered with status 200 and the results \<open>null\<close>, which is no
  array of grading results.
\<close>

theorem response_contract_counterexample:
  "response (POST (\<lambda>r. Inl (Error None)) (Inr sample_request)) =
     \<lparr> status = 500, body = ErrorBody (str ''Internal Server Error'') \<rparr> \<and>
   \<not> contains (str ''Internal Server Error'') (str ''ailed to grade'') \<and>
   error (fst (gradeImage (\<lambda>req_body. POST (\<lambda>r. Inl (Error None)) (Inr req_body))
                 (str ''data:image/jpeg;base64,QUJD'') initial_state)) =
     Some (str ''Internal Server Error'') \<and>
   response (POST (\<lambda>r. Inr (Some null_output)) (Inr sample_request)) =
     \<lparr> status = 200, body = ResultsBody JNull \<rparr>"
  by (simp add: POST_def sample_request_def destructure_image_def member_def base64_of_def
      index_def api_error_def or_else_def gradeImage_def response_ok_def data_error_def
      initial_state_def null_output_def json_eval)

text \<open>
  C2 (as amended).  A missing output, the empty string, and every output whose cleaned
  text is empty or is not valid JSON fail to parse.  The endpoint then answers with status
  500 and the fixed message \<open>Failed to parse AI response. Please try again.\<close>, which
  does not depend on the output; the output itself goes to the console only.  Every output
  that does parse is returned as \<open>results\<close> with status 200, whatever its shape.
\<close>

theorem parse_failure:
  assumes "destructure_image b = Inr img" and "truthy img" and "base64_of img = Inr d"
    and "infer (grading_request d) = Inr outputText"
  shows "parse_output None = None \<and> parse_output (Some []) = None \<and>
         (clean_json t = [] \<longrightarrow> parse_output (Some t) = None) \<and>
         (parse_output outputText = None \<longrightarrow>
            POST infer (Inr b) =
              \<lparr> response =
                  \<lparr> status = 500,
                    body = ErrorBody (str ''Failed to parse AI response. Please try again.'') \<rparr>,
                console = [(str ''JSON Parse Error:'', Logged_text outputText)],
                calls = [grading_request d] \<rparr>) \<and>
         (\<forall>v. parse_output outputText = Some v \<longrightarrow>
            response (POST infer (Inr b)) = \<lparr> status = 200, body = ResultsBody v \<rparr>)"
proof (intro conjI)
  show "parse_output None = None"
    by (simp add: parse_output_def)
  have "clean_json [] = []"
    by (simp add: clean_json_def trim_def)
  then show "parse_output (Some []) = None"
    by (simp add: parse_output_def JSON_parse_empty)
  show "clean_json t = [] \<longrightarrow> parse_output (Some t) = None"
    by (simp add: parse_output_def JSON_parse_empty)
  show "parse_output outputText = None \<longrightarrow>
          POST infer (Inr b) =
            \<lparr> response =
                \<lparr> status = 500,
                  body = ErrorBody (str ''Failed to parse AI response. Please try again.'') \<rparr>,
              console = [(str ''JSON Parse Error:'', Logged_text outputText)],
              calls = [grading_request d] \<rparr>"
    using assms by (simp add: POST_def)
  show "\<forall>v. parse_output outputText = Some v \<longrightarrow>
          response (POST infer (Inr b)) = \<lparr> status = 200, body = ResultsBody v \<rparr>"
    using assms by (simp add: POST_def)
qed

theorem parse_failure_witness:
  "destructure_image sample_request = Inr (Some (JString (str ''data:image/jpeg;base64,QUJD''))) \<and>
   truthy (Some (JString (str ''data:image/jpeg;base64,QUJD''))) \<and>
   base64_of (Some (JString (str ''data:image/jpeg;base64,QUJD''))) = Inr (Some (str ''QUJD'')) \<and>
   parse_output (Some truncated_output) = None \<and>
   POST (\<lambda>r. Inr (Some truncated_output)) (Inr sample_request) =
     \<lparr> response =
         \<lparr> status = 500, body = ErrorBody (str ''Failed to parse AI response. Please try again.'') \<rparr>,
       console = [(str ''JSON Parse Error:'', Logged_text (Some truncated_output))],
       calls = [grading_request (Some (str ''QUJD''))] \<rparr>"
proof -
  have d: "destructure_image sample_request = Inr (Some (JString (str ''data:image/jpeg;base64,QUJD'')))"
    by (simp add: sample_request_def destructure_image_def member_def str_def)
  have t: "truthy (Some (JString (str ''data:image/jpeg;base64,QUJD'')))"
    by (simp add: str_def)
  have s: "base64_of (Some (JString (str ''data:image/jpeg;base64,QUJD''))) = Inr (Some (str ''QUJD''))"
    by (simp add: base64_of_def index_def str_def)
  have p: "parse_output (Some truncated_output) = None"
    by (simp add: truncated_output_def json_eval)
  have i: "(\<lambda>r. Inr (Some truncated_output)) (grading_request (Some (str ''QUJD''))) =
      (Inr (Some truncated_output) :: js_error + js_string option)"
    by simp
  from parse_failure [OF d t s i, of "[]"] d t s p
  show ?thesis by simp
qed

text \<open>
  C2 as stated fails for valid JSON of the wrong shape: an object, and an array whose
  element lacks four of the five fields, are returned as \<open>results\<close> with status 200.
\<close>

theorem unvalidated_results_counterexample:
  "parse_output (Some object_output) = Some (JObject [(str ''lineNumber'', JNumber 1)]) \<and>
   response (POST (\<lambda>r. Inr (Some object_output)) (Inr sample_request)) =
     \<lparr> status = 200, body = ResultsBody (JObject [(str ''lineNumber'', JNumber 1)]) \<rparr> \<and>
   response (POST (\<lambda>r. Inr (Some incomplete_output)) (Inr sample_request)) =
     \<lparr> status = 200, body = ResultsBody (JArray [JObject [(str ''lineNumber'', JNumber 1)]]) \<rparr>"
  by (simp add: POST_def sample_request_def destructure_image_def member_def base64_of_def
      index_def object_output_def incomplete_output_def json_eval)


section \<open>Properties of the cleanup of the model output\<close>

text \<open>The number of backticks a text begins with.\<close>

definition ticks :: "js_string \<Rightarrow> nat" where
  "ticks s = length (takeWhile (\<lambda>c. c = 96) s)"

lemma fence_units: "str ''```'' = [96, 96, 96]"
  by (simp add: str_def)

lemma fence_json_units: "str ''```json'' = [96, 96, 96, 106, 115, 111, 110]"
  by (simp add: str_def)

lemma contains_Nil [simp]: "contains s []"
  by (cases s) (simp_all add: startsWith_def)

lemma startsWith_append: "startsWith a p \<Longrightarrow> startsWith (a @ b) p"
  unfolding startsWith_def
  by (metis append_eq_conv_conj append.assoc append_take_drop_id)

lemma contains_append: "contains a p \<Longrightarrow> contains (a @ b) p"
  by (induction a) (auto dest: startsWith_append [where b = b])

lemma contains_dropWhile: "contains (dropWhile P s) p \<Longrightarrow> contains s p"
  by (induction s) (auto split: if_splits)

lemma contains_trim: "contains (trim s) p \<Longrightarrow> contains s p"
proof -
  assume a: "contains (trim s) p"
  let ?d = "dropWhile js_whitespace s"
  have "?d = rev (dropWhile js_whitespace (rev ?d)) @ rev (takeWhile js_whitespace (rev ?d))"
    by (metis rev_append rev_rev_ident takeWhile_dropWhile_id)
  with a have "contains ?d p"
    unfolding trim_def by (metis contains_append)
  then show ?thesis by (rule contains_dropWhile)
qed

lemma startsWith_trans:
  assumes "startsWith s p" and "startsWith p q"
  shows "startsWith s q"
proof -
  from assms(2) have "length q \<le> length p"
    unfolding startsWith_def by (metis length_take min.cobounded1)
  then have "take (length q) s = take (length q) (take (length p) s)"
    by (simp add: min.absorb1)
  with assms show ?thesis
    unfolding startsWith_def by simp
qed

lemma startsWith_fence_json: "startsWith s (str ''```json'') \<Longrightarrow> startsWith s (str ''```'')"
  by (erule startsWith_trans) (simp add: startsWith_def fence_units fence_json_units)

lemma contains_fence_json: "contains s (str ''```json'') \<Longrightarrow> contains s (str ''```'')"
proof (induction s)
  case Nil
  then show ?case by (simp add: str_def)
next
  case (Cons c cs)
  then show ?case by (auto dest: startsWith_fence_json)
qed

lemma startsWith_fence_ticks: "startsWith s (str ''```'') \<longleftrightarrow> 3 \<le> ticks s"
  unfolding startsWith_def fence_units ticks_def
  by (cases s; cases "tl s"; cases "tl (tl s)") auto

lemma ticks_replace_all: "ticks (replace_all (str ''```'') [] s) = ticks s mod 3"
proof (induction s rule: length_induct)
  case (1 s)
  show ?case
  proof (cases s)
    case Nil
    then show ?thesis by (simp add: ticks_def)
  next
    case (Cons c cs)
    show ?thesis
    proof (cases "startsWith s (str ''```'')")
      case True
      then obtain rest where s: "s = 96 # 96 # 96 # rest"
        unfolding startsWith_def fence_units
        by (cases s; cases "tl s"; cases "tl (tl s)") auto
      have "ticks (replace_all (str ''```'') [] rest) = ticks rest mod 3"
        using 1 s by simp
      then show ?thesis
        using s by (simp add: startsWith_def fence_units ticks_def)
    next
      case False
      then have small: "ticks s < 3" by (simp add: startsWith_fence_ticks)
      have r: "replace_all (str ''```'') [] s = c # replace_all (str ''```'') [] cs"
        using False Cons by simp
      have ih: "ticks (replace_all (str ''```'') [] cs) = ticks cs mod 3"
        using 1 Cons by simp
      show ?thesis
      proof (cases "c = 96")
        case True
        with small Cons have "ticks cs < 2" by (simp add: ticks_def)
        with True Cons r ih show ?thesis by (simp add: ticks_def)
      next
        case False
        with Cons r show ?thesis by (simp add: ticks_def)
      qed
    qed
  qed
qed

lemma no_fence_left: "\<not> contains (replace_all (str ''```'') [] s) (str ''```'')"
proof (induction s rule: length_induct)
  case (1 s)
  show ?case
  proof (cases s)
    case Nil
    then show ?thesis by (simp add: fence_units)
  next
    case (Cons c cs)
    show ?thesis
    proof (cases "startsWith s (str ''```'')")
      case True
      then obtain rest where s: "s = 96 # 96 # 96 # rest"
        unfolding startsWith_def fence_units
        by (cases s; cases "tl s"; cases "tl (tl s)") auto
      then have "replace_all (str ''```'') [] s = replace_all (str ''```'') [] rest"
        by (simp add: startsWith_def fence_units)
      moreover have "length rest < length s" using s by simp
      ultimately show ?thesis using 1 by simp
    next
      case False
      then have small: "ticks s < 3" by (simp add: startsWith_fence_ticks)
      have r: "replace_all (str ''```'') [] s = c # replace_all (str ''```'') [] cs"
        using False Cons by simp
      have ih: "\<not> contains (replace_all (str ''```'') [] cs) (str ''```'')"
        using 1 Cons by simp
      have "\<not> startsWith (c # replace_all (str ''```'') [] cs) (str ''```'')"
      proof
        assume "startsWith (c # replace_all (str ''```'') [] cs) (str ''```'')"
        then have "3 \<le> ticks (c # replace_all (str ''```'') [] cs)"
          by (simp add: startsWith_fence_ticks)
        then have c: "c = 96" and "2 \<le> ticks (replace_all (str ''```'') [] cs)"
          by (auto simp: ticks_def split: if_splits)
        then have "2 \<le> ticks cs mod 3" by (simp add: ticks_replace_all)
        then have "2 \<le> ticks cs" by (meson le_trans mod_less_eq_dividend)
        with c Cons have "3 \<le> ticks s" by (simp add: ticks_def)
        with small show False by simp
      qed
      with ih r show ?thesis by simp
    qed
  qed
qed

lemma clean_json_no_fence: "\<not> contains (clean_json raw) (str ''```'')"
  unfolding clean_json_def using no_fence_left contains_trim by blast


lemma not_startsWith_hd: "p \<noteq> [] \<Longrightarrow> c \<noteq> hd p \<Longrightarrow> \<not> startsWith (c # cs) p"
  by (cases p) (auto simp: startsWith_def)

lemma replace_all_skip:
  assumes "p \<noteq> []" and "hd p \<notin> set w"
  shows "replace_all p r (w @ s) = w @ replace_all p r s"
  using assms(2)
proof (induction w)
  case Nil
  show ?case by simp
next
  case (Cons c w)
  then have "\<not> startsWith (c # w @ s) p"
    using assms(1) by (intro not_startsWith_hd) auto
  with Cons show ?case by simp
qed

lemma replace_all_plain:
  assumes "p \<noteq> []" and "hd p \<notin> set w"
  shows "replace_all p r w = w"
  using replace_all_skip [OF assms, of r "[]"] by simp

lemma startsWith_short:
  assumes "startsWith (b @ s) (str ''```'')" and "b \<noteq> []"
  shows "startsWith b (str ''```'') \<or> last b = 96"
  using assms unfolding startsWith_def fence_units
  by (cases b; cases "tl b"; cases "tl (tl b)") auto

lemma replace_all_body:
  assumes p: "startsWith p (str ''```'')"
    and "\<not> contains b (str ''```'')" and "b \<noteq> []" and "last b \<noteq> 96"
  shows "replace_all p r (b @ s) = b @ replace_all p r s"
  using assms(2-)
proof (induction b)
  case Nil
  then show ?case by simp
next
  case (Cons c b)
  have "\<not> startsWith ((c # b) @ s) p"
  proof
    assume "startsWith ((c # b) @ s) p"
    then have "startsWith ((c # b) @ s) (str ''```'')"
      using p by (rule startsWith_trans)
    then have "startsWith (c # b) (str ''```'') \<or> last (c # b) = 96"
      by (intro startsWith_short) auto
    with Cons.prems show False by auto
  qed
  then have step: "replace_all p r ((c # b) @ s) = c # replace_all p r (b @ s)"
    by simp
  show ?case
  proof (cases "b = []")
    case True
    with step show ?thesis by simp
  next
    case False
    with Cons have "replace_all p r (b @ s) = b @ replace_all p r s" by auto
    with step show ?thesis by simp
  qed
qed

lemma not_tick_ws: "js_whitespace c \<Longrightarrow> c \<noteq> 96"
  by (auto simp: js_whitespace_def)

lemma ws_no_tick: "list_all js_whitespace w \<Longrightarrow> 96 \<notin> set w"
  by (auto simp: list_all_iff dest: not_tick_ws)

lemma fence_json_kept:
  assumes "list_all js_whitespace w"
  shows "replace_all (str ''```json'') [] (str ''```'' @ w) = str ''```'' @ w"
proof -
  have w: "replace_all (str ''```json'') [] w = w"
    using ws_no_tick [OF assms] by (intro replace_all_plain) (simp_all add: fence_json_units)
  have "w = [] \<or> (\<exists>c cs. w = c # cs \<and> c \<noteq> 96 \<and> c \<noteq> 106)"
    using assms by (cases w) (auto simp: js_whitespace_def)
  then show ?thesis
    using w by (auto simp: fence_units fence_json_units startsWith_def)
qed

lemma trim_surrounded:
  assumes "list_all js_whitespace a" and "list_all js_whitespace z"
    and "b \<noteq> []" and "\<not> js_whitespace (hd b)" and "\<not> js_whitespace (last b)"
  shows "trim (a @ b @ z) = b"
proof -
  have "dropWhile js_whitespace (a @ b @ z) = dropWhile js_whitespace (b @ z)"
    using assms(1) by (intro dropWhile_append2) (simp add: list_all_iff)
  also have "\<dots> = b @ z"
    using assms(3,4) by (cases b) auto
  finally have front: "dropWhile js_whitespace (a @ b @ z) = b @ z" .
  have "dropWhile js_whitespace (rev z @ rev b) = dropWhile js_whitespace (rev b)"
    using assms(2) by (intro dropWhile_append2) (simp add: list_all_iff)
  also have "\<dots> = rev b"
    using assms(3,5) by (cases "rev b") (auto simp: last_rev [symmetric] hd_rev)
  finally show ?thesis
    by (simp add: trim_def front)
qed

lemma fence_hd: "startsWith p (str ''```'') \<Longrightarrow> p \<noteq> [] \<and> hd p = 96"
  by (cases p) (auto simp: startsWith_def fence_units)

lemma replace_all_wrapped:
  assumes p: "startsWith p (str ''```'')"
    and "list_all js_whitespace a" and "list_all js_whitespace z"
    and "\<not> contains b (str ''```'')" and "b \<noteq> []" and "last b \<noteq> 96"
  shows "replace_all p r (a @ b @ z) = a @ b @ z"
proof -
  note h = fence_hd [OF p]
  have "replace_all p r (a @ b @ z) = a @ replace_all p r (b @ z)"
    using h ws_no_tick [OF assms(2)] by (intro replace_all_skip) simp_all
  also have "replace_all p r (b @ z) = b @ replace_all p r z"
    using assms by (intro replace_all_body) simp_all
  also have "replace_all p r z = z"
    using h ws_no_tick [OF assms(3)] by (intro replace_all_plain) simp_all
  finally show ?thesis .
qed

lemma clean_json_plain:
  assumes "list_all js_whitespace w1" and "list_all js_whitespace w4"
    and "b \<noteq> []" and "\<not> js_whitespace (hd b)" and "\<not> js_whitespace (last b)"
    and "\<not> contains b (str ''```'')" and "last b \<noteq> 96"
  shows "clean_json (w1 @ b @ w4) = b"
proof -
  have j: "startsWith (str ''```json'') (str ''```'')" and f: "startsWith (str ''```'') (str ''```'')"
    by (simp_all add: startsWith_def fence_units fence_json_units)
  have "replace_all (str ''```json'') [] (w1 @ b @ w4) = w1 @ b @ w4"
    using assms by (intro replace_all_wrapped [OF j]) simp_all
  moreover have "replace_all (str ''```'') [] (w1 @ b @ w4) = w1 @ b @ w4"
    using assms by (intro replace_all_wrapped [OF f]) simp_all
  moreover have "trim (w1 @ b @ w4) = b"
    using assms by (intro trim_surrounded) simp_all
  ultimately show ?thesis
    by (simp only: clean_json_def)
qed

lemma clean_json_fenced:
  assumes "list_all js_whitespace w1" and "list_all js_whitespace w2"
    and "list_all js_whitespace w3" and "list_all js_whitespace w4"
    and "b \<noteq> []" and "\<not> js_whitespace (hd b)" and "\<not> js_whitespace (last b)"
    and "\<not> contains b (str ''```'')" and "last b \<noteq> 96"
  shows "clean_json (w1 @ str ''```json'' @ w2 @ b @ w3 @ str ''```'' @ w4) = b"
proof -
  have j: "startsWith (str ''```json'') (str ''```'')" and f: "startsWith (str ''```'') (str ''```'')"
    by (simp_all add: startsWith_def fence_units fence_json_units)
  note t = ws_no_tick [OF assms(1)] ws_no_tick [OF assms(2)] ws_no_tick [OF assms(3)]
    ws_no_tick [OF assms(4)]
  have open_fence: "replace_all (str ''```json'') [] (str ''```json'' @ s) =
      replace_all (str ''```json'') [] s" for s
    by (simp add: fence_json_units startsWith_def)
  have close_fence: "replace_all (str ''```'') [] (str ''```'' @ s) =
      replace_all (str ''```'') [] s" for s
    by (simp add: fence_units startsWith_def)
  have "replace_all (str ''```json'') [] (w1 @ str ''```json'' @ w2 @ b @ w3 @ str ''```'' @ w4) =
      w1 @ replace_all (str ''```json'') [] (str ''```json'' @ w2 @ b @ w3 @ str ''```'' @ w4)"
    using t(1) by (intro replace_all_skip) (simp_all add: fence_json_units)
  also have "\<dots> = w1 @ replace_all (str ''```json'') [] (w2 @ b @ w3 @ str ''```'' @ w4)"
    by (simp only: open_fence)
  also have "\<dots> = w1 @ w2 @ replace_all (str ''```json'') [] (b @ w3 @ str ''```'' @ w4)"
    using t(2) by (subst replace_all_skip) (simp_all add: fence_json_units)
  also have "\<dots> = w1 @ w2 @ b @ replace_all (str ''```json'') [] (w3 @ str ''```'' @ w4)"
    using assms by (subst replace_all_body [OF j]) simp_all
  also have "\<dots> = w1 @ w2 @ b @ w3 @ replace_all (str ''```json'') [] (str ''```'' @ w4)"
    using t(3) by (subst replace_all_skip) (simp_all add: fence_json_units)
  also have "\<dots> = w1 @ w2 @ b @ w3 @ str ''```'' @ w4"
    by (simp only: fence_json_kept [OF assms(4)])
  finally have first: "replace_all (str ''```json'') []
      (w1 @ str ''```json'' @ w2 @ b @ w3 @ str ''```'' @ w4) = (w1 @ w2) @ b @ w3 @ str ''```'' @ w4"
    by simp
  have "replace_all (str ''```'') [] ((w1 @ w2) @ b @ w3 @ str ''```'' @ w4) =
      (w1 @ w2) @ replace_all (str ''```'') [] (b @ w3 @ str ''```'' @ w4)"
    using t(1,2) by (intro replace_all_skip) (simp_all add: fence_units)
  also have "\<dots> = (w1 @ w2) @ b @ replace_all (str ''```'') [] (w3 @ str ''```'' @ w4)"
    using assms by (subst replace_all_body [OF f]) simp_all
  also have "\<dots> = (w1 @ w2) @ b @ w3 @ replace_all (str ''```'') [] (str ''```'' @ w4)"
    using t(3) by (subst replace_all_skip) (simp_all add: fence_units)
  also have "\<dots> = (w1 @ w2) @ b @ w3 @ replace_all (str ''```'') [] w4"
    by (simp only: close_fence)
  also have "\<dots> = (w1 @ w2) @ b @ w3 @ w4"
    using t(4) by (subst replace_all_plain) (simp_all add: fence_units)
  finally have second: "replace_all (str ''```'') [] ((w1 @ w2) @ b @ w3 @ str ''```'' @ w4) =
      (w1 @ w2) @ b @ (w3 @ w4)"
    by simp
  have "trim ((w1 @ w2) @ b @ (w3 @ w4)) = b"
    using assms by (intro trim_surrounded) simp_all
  then show ?thesis
    by (simp only: clean_json_def first second)
qed


text \<open>
  C1 (as amended).  Let \<open>txt\<close> be the text of a JSON array, from its opening to its
  closing bracket, that contains no three backticks in a row and that \<open>JSON.parse\<close>
  reads as the array \<open>elems\<close>.  Surrounded by white space, and also wrapped in a
  \<open>```json\<close> fence and a closing fence with white space around them, the output parses
  to exactly that array: the same elements with the same values in the same order.  The
  wrapped output cleans to the same text as the unwrapped one.
\<close>

theorem fenced_array_parsed:
  assumes "JSON_parse txt = Some (JArray elems)"
    and "txt \<noteq> []" and "hd txt = 91" and "last txt = 93"
    and "\<not> contains txt (str ''```'')"
    and "list_all js_whitespace w1" and "list_all js_whitespace w2"
    and "list_all js_whitespace w3" and "list_all js_whitespace w4"
  shows "parse_output (Some (w1 @ txt @ w4)) = Some (JArray elems) \<and>
         parse_output (Some (w1 @ str ''```json'' @ w2 @ txt @ w3 @ str ''```'' @ w4)) =
           Some (JArray elems) \<and>
         clean_json (w1 @ str ''```json'' @ w2 @ txt @ w3 @ str ''```'' @ w4) =
           clean_json (w1 @ txt @ w4)"
proof -
  have ends: "\<not> js_whitespace (hd txt)" "\<not> js_whitespace (last txt)" "last txt \<noteq> 96"
    using assms(3,4) by (simp_all add: js_whitespace_def)
  have "clean_json (w1 @ txt @ w4) = txt"
    using assms ends by (intro clean_json_plain) simp_all
  moreover have "clean_json (w1 @ str ''```json'' @ w2 @ txt @ w3 @ str ''```'' @ w4) = txt"
    using assms ends by (intro clean_json_fenced) simp_all
  ultimately show ?thesis
    using assms(1) by (simp add: parse_output_def)
qed

theorem fenced_array_parsed_witness:
  "JSON_parse minimal_output = Some minimal_results \<and>
   \<not> contains minimal_output (str ''```'') \<and>
   parse_output (Some minimal_output) = Some minimal_results \<and>
   parse_output (Some (str ''```json'' @ [10] @ minimal_output @ [10] @ str ''```'')) =
     Some minimal_results"
proof -
  have p: "JSON_parse minimal_output = Some (JArray [JObject
       [(str ''lineNumber'', JNumber 1), (str ''latex'', JString (str ''2+2=4'')),
        (str ''isCorrect'', JBool True), (str ''explanation'', JString []),
        (str ''boundingBox'', JArray [JNumber 0, JNumber 0, JNumber 100, JNumber 500])]])"
    by (simp add: minimal_output_def json_eval)
  have c: "\<not> contains minimal_output (str ''```'')"
    by (simp add: minimal_output_def str_def startsWith_def)
  have e: "minimal_output \<noteq> []" "hd minimal_output = 91" "last minimal_output = 93"
    by (simp_all add: minimal_output_def str_def)
  have w: "list_all js_whitespace []" "list_all js_whitespace [10]"
    by (simp_all add: js_whitespace_def)
  from fenced_array_parsed [OF p e c w(1) w(2) w(2) w(1)] p c
  show ?thesis by (simp add: minimal_results_def)
qed

text \<open>
  C1 as stated fails for a valid array whose explanation contains backticks: the parsed
  explanation is not the one of the raw JSON.
\<close>

theorem explanation_changed_counterexample:
  "JSON_parse explained_output =
     Some (JArray [JObject
       [(str ''lineNumber'', JNumber 1), (str ''latex'', JString (str ''2+2=5'')),
        (str ''isCorrect'', JBool False), (str ''explanation'', JString (str ''Write ```2+2=4```'')),
        (str ''boundingBox'', JArray [JNumber 0, JNumber 0, JNumber 100, JNumber 500])]]) \<and>
   parse_output (Some explained_output) =
     Some (JArray [JObject
       [(str ''lineNumber'', JNumber 1), (str ''latex'', JString (str ''2+2=5'')),
        (str ''isCorrect'', JBool False), (str ''explanation'', JString (str ''Write 2+2=4'')),
        (str ''boundingBox'', JArray [JNumber 0, JNumber 0, JNumber 100, JNumber 500])]]) \<and>
   parse_output (Some explained_output) \<noteq> JSON_parse explained_output"
  by (simp add: explained_output_def json_eval)


lemma contains_length: "contains s p \<Longrightarrow> length p \<le> length s"
  by (induction s) (auto simp: startsWith_def dest: arg_cong [where f = length])

lemma startsWith_shorten:
  assumes "startsWith (x @ y) p" and "length p \<le> length x"
  shows "startsWith x p"
  using assms by (simp add: startsWith_def)

lemma startsWith_self: "startsWith (p @ b) p"
  by (simp add: startsWith_def)

lemma contains_startsWith: "startsWith s p \<Longrightarrow> contains s p"
  by (cases s) (auto simp: startsWith_def)

lemma replace_all_unchanged: "\<not> contains s p \<Longrightarrow> replace_all p r s = s"
  by (induction s) auto

lemma replace_all_first:
  assumes "p \<noteq> []" and "\<not> contains (a @ butlast p) p"
  shows "replace_all p r (a @ p @ b) = a @ r @ replace_all p r b"
  using assms(2)
proof (induction a)
  case Nil
  obtain c cs where pb: "p @ b = c # cs"
    using assms(1) by (cases "p @ b") auto
  have "replace_all p r (c # cs) = r @ replace_all p r (drop (length p) (c # cs))"
    using assms(1) startsWith_self [of p b] by (simp add: pb)
  then show ?case by (simp add: pb [symmetric])
next
  case (Cons c a)
  have "butlast p @ [last p] = p"
    using assms(1) by (rule append_butlast_last_id)
  then have "butlast p @ last p # b = p @ b"
    by (metis append.assoc append_Cons append_Nil)
  then have split: "(c # a) @ p @ b = ((c # a) @ butlast p) @ (last p # b)"
    by simp
  have "\<not> startsWith ((c # a) @ p @ b) p"
  proof
    assume "startsWith ((c # a) @ p @ b) p"
    then have "startsWith (((c # a) @ butlast p) @ (last p # b)) p"
      by (simp only: split)
    then have "startsWith ((c # a) @ butlast p) p"
      by (rule startsWith_shorten) simp
    then have "contains ((c # a) @ butlast p) p"
      by (rule contains_startsWith)
    with Cons.prems show False by simp
  qed
  moreover have "\<not> contains (a @ butlast p) p"
    using Cons.prems by simp
  ultimately show ?case
    using Cons.IH by simp
qed

lemma first_occurrence:
  assumes "contains s p" and "p \<noteq> []"
  shows "\<exists>a b. s = a @ p @ b \<and> \<not> contains (a @ butlast p) p"
  using assms(1)
proof (induction s)
  case Nil
  with assms(2) show ?case by simp
next
  case (Cons c cs)
  show ?case
  proof (cases "startsWith (c # cs) p")
    case True
    then have "c # cs = [] @ p @ drop (length p) (c # cs)"
      unfolding startsWith_def by (metis append_Nil append_take_drop_id)
    moreover have "\<not> contains ([] @ butlast p) p"
    proof
      assume "contains ([] @ butlast p) p"
      then have "contains (butlast p) p" by simp
      then have "length p \<le> length (butlast p)"
        by (rule contains_length)
      then have "length p \<le> length p - 1"
        by (simp only: length_butlast)
      moreover have "0 < length p" using assms(2) by simp
      ultimately show False by linarith
    qed
    ultimately show ?thesis by blast
  next
    case False
    with Cons.prems have "contains cs p" by simp
    then obtain a b where cs: "cs = a @ p @ b" and no: "\<not> contains (a @ butlast p) p"
      using Cons.IH by blast
    have "\<not> startsWith (c # a @ butlast p) p"
    proof
      assume "startsWith (c # a @ butlast p) p"
      then have "startsWith ((c # a @ butlast p) @ (last p # b)) p"
        by (rule startsWith_append)
      moreover have "butlast p @ [last p] = p"
        using assms(2) by (rule append_butlast_last_id)
      then have "butlast p @ last p # b = p @ b"
        by (metis append.assoc append_Cons append_Nil)
      then have "(c # a @ butlast p) @ (last p # b) = c # a @ p @ b"
        by simp
      ultimately have "startsWith (c # a @ p @ b) p"
        by (simp only:)
      with cs False show False by simp
    qed
    with no have "\<not> contains ((c # a) @ butlast p) p" by simp
    moreover have "c # cs = (c # a) @ p @ b" using cs by simp
    ultimately show ?thesis by blast
  qed
qed

lemma replace_all_removes: "p \<noteq> [] \<Longrightarrow> occurrences_removed p s (replace_all p [] s)"
proof (induction s rule: length_induct)
  case (1 s)
  show ?case
  proof (cases "contains s p")
    case False
    then show ?thesis
      by (simp add: replace_all_unchanged occurrences_removed.none)
  next
    case True
    then obtain a b where s: "s = a @ p @ b" and no: "\<not> contains (a @ butlast p) p"
      using first_occurrence 1(2) by blast
    have "length b < length s" using s 1(2) by (cases p) auto
    then have "occurrences_removed p b (replace_all p [] b)"
      using 1 by blast
    with no have "occurrences_removed p (a @ p @ b) (a @ replace_all p [] b)"
      by (rule occurrences_removed.first)
    then show ?thesis
      using s no 1(2) by (simp add: replace_all_first)
  qed
qed

lemma removed_unique: "occurrences_removed p s r \<Longrightarrow> r = replace_all p [] s"
proof (induction rule: occurrences_removed.induct)
  case (none s p)
  then show ?case by (simp add: replace_all_unchanged)
next
  case (first a p b r)
  then have "p \<noteq> []" by auto
  with first show ?case by (simp add: replace_all_first)
qed

text \<open>
  C10.  The cleaned text is the output without every occurrence of \<open>```json\<close> and then
  without every occurrence of three backticks, wherever they stand, trimmed: it is the one
  text that the specification of the removal allows.  It never contains three backticks in
  a row, nor \<open>```json\<close>; and for the valid array \<open>ticked_output\<close>, whose \<open>latex\<close> is
  \<open>```2+2=4```\<close>, the parsed \<open>latex\<close> is \<open>2+2=4\<close>, which is not the value of the raw
  JSON.
\<close>

theorem fences_removed_everywhere:
  "(\<exists>r1 r2. occurrences_removed (str ''```json'') raw r1 \<and>
       occurrences_removed (str ''```'') r1 r2 \<and> clean_json raw = trim r2) \<and>
   (\<forall>r1 r2. occurrences_removed (str ''```json'') raw r1 \<and>
       occurrences_removed (str ''```'') r1 r2 \<longrightarrow> clean_json raw = trim r2) \<and>
   \<not> contains (clean_json raw) (str ''```'') \<and>
   \<not> contains (clean_json raw) (str ''```json'') \<and>
   JSON_parse ticked_output =
     Some (JArray [JObject
       [(str ''lineNumber'', JNumber 1), (str ''latex'', JString (str ''```2+2=4```'')),
        (str ''isCorrect'', JBool True), (str ''explanation'', JString []),
        (str ''boundingBox'', JArray [JNumber 0, JNumber 0, JNumber 100, JNumber 500])]]) \<and>
   parse_output (Some ticked_output) =
     Some (JArray [JObject
       [(str ''lineNumber'', JNumber 1), (str ''latex'', JString (str ''2+2=4'')),
        (str ''isCorrect'', JBool True), (str ''explanation'', JString []),
        (str ''boundingBox'', JArray [JNumber 0, JNumber 0, JNumber 100, JNumber 500])]])"
proof -
  have j: "str ''```json'' \<noteq> []" and f: "str ''```'' \<noteq> []"
    by (simp_all add: str_def)
  let ?r1 = "replace_all (str ''```json'') [] raw"
  let ?r2 = "replace_all (str ''```'') [] ?r1"
  have "occurrences_removed (str ''```json'') raw ?r1 \<and>
      occurrences_removed (str ''```'') ?r1 ?r2 \<and> clean_json raw = trim ?r2"
    using replace_all_removes [OF j] replace_all_removes [OF f] by (simp add: clean_json_def)
  then have ex: "\<exists>r1 r2. occurrences_removed (str ''```json'') raw r1 \<and>
       occurrences_removed (str ''```'') r1 r2 \<and> clean_json raw = trim r2"
    by blast
  have un: "\<forall>r1 r2. occurrences_removed (str ''```json'') raw r1 \<and>
       occurrences_removed (str ''```'') r1 r2 \<longrightarrow> clean_json raw = trim r2"
    by (auto simp: clean_json_def dest!: removed_unique)
  have "\<not> contains (clean_json raw) (str ''```'')"
    by (rule clean_json_no_fence)
  moreover from this have "\<not> contains (clean_json raw) (str ''```json'')"
    using contains_fence_json by blast
  moreover have "JSON_parse ticked_output =
     Some (JArray [JObject
       [(str ''lineNumber'', JNumber 1), (str ''latex'', JString (str ''```2+2=4```'')),
        (str ''isCorrect'', JBool True), (str ''explanation'', JString []),
        (str ''boundingBox'', JArray [JNumber 0, JNumber 0, JNumber 100, JNumber 500])]])"
    by (simp add: ticked_output_def json_eval)
  moreover have "parse_output (Some ticked_output) =
     Some (JArray [JObject
       [(str ''lineNumber'', JNumber 1), (str ''latex'', JString (str ''2+2=4'')),
        (str ''isCorrect'', JBool True), (str ''explanation'', JString []),
        (str ''boundingBox'', JArray [JNumber 0, JNumber 0, JNumber 100, JNumber 500])]])"
    by (simp add: ticked_output_def json_eval)
  ultimately show ?thesis using ex un by blast
qed

theorem fences_removed_everywhere_witness:
  "occurrences_removed (str ''```json'') (str ''```json[1]```'') (str ''[1]```'') \<and>
   occurrences_removed (str ''```'') (str ''[1]```'') (str ''[1]'') \<and>
   clean_json (str ''```json[1]```'') = str ''[1]''"
proof -
  have n1: "\<not> contains (str ''[1]```'') (str ''```json'')"
    by (simp add: str_def startsWith_def)
  have b1: "\<not> contains ([] @ butlast (str ''```json'')) (str ''```json'')"
    by (simp add: str_def startsWith_def)
  have "occurrences_removed (str ''```json'') ([] @ str ''```json'' @ str ''[1]```'')
      ([] @ str ''[1]```'')"
    using b1 occurrences_removed.none [OF n1] by (rule occurrences_removed.first)
  then have r1: "occurrences_removed (str ''```json'') (str ''```json[1]```'') (str ''[1]```'')"
    by (simp add: str_def)
  have n2: "\<not> contains [] (str ''```'')"
    by (simp add: str_def)
  have b2: "\<not> contains (str ''[1]'' @ butlast (str ''```'')) (str ''```'')"
    by (simp add: str_def startsWith_def)
  have "occurrences_removed (str ''```'') (str ''[1]'' @ str ''```'' @ []) (str ''[1]'' @ [])"
    using b2 occurrences_removed.none [OF n2] by (rule occurrences_removed.first)
  then have r2: "occurrences_removed (str ''```'') (str ''[1]```'') (str ''[1]'')"
    by (simp add: str_def)
  have t: "trim (str ''[1]'') = str ''[1]''"
    by (simp add: trim_def str_def js_whitespace_def)
  from fences_removed_everywhere [of "str ''```json[1]```''"] r1 r2 t
  show ?thesis by auto
qed

end
